theory Spec2Isabelle
  imports Complex_Main
begin

section \<open>Instrument control: the Keithley 2400 and 2614B sweep procedures\<close>

text \<open>
  The two notebooks talk to one instrument each through a PyVISA resource held in a
  module-level variable (\<^verbatim>\<open>keithley2400\<close>, \<^verbatim>\<open>keithley2614B\<close>). The resource is external:
  it is modelled as an instrument with a state of any type \<open>'d\<close> whose \<open>write\<close> and
  \<open>query\<close> may succeed or raise. The session passed through every procedure holds the
  instrument's state and the trace of the calls made so far, each with its outcome.
\<close>

subsection \<open>Errors\<close>

text \<open>
  What the resource raises (a link failure or a timeout), and the two exceptions the
  Python of the sweep itself raises: \<^verbatim>\<open>ValueError\<close> from \<^verbatim>\<open>float\<close> and
  \<^verbatim>\<open>IndexError\<close> from \<^verbatim>\<open>data[1]\<close>. No procedure catches anything.
\<close>

datatype visa_error = CommunicationError | TimeoutError

datatype error = VisaError visa_error | ValueError | IndexError

subsection \<open>The resource\<close>

datatype event =
    Write string "visa_error option"
  | Query string "visa_error + string"

record 'd instrument =
  on_write :: "string \<Rightarrow> 'd \<Rightarrow> visa_error option \<times> 'd"
  on_query :: "string \<Rightarrow> 'd \<Rightarrow> (visa_error + string) \<times> 'd"

record 'd session =
  device :: 'd
  trace :: "event list"

text \<open>\<^verbatim>\<open>resource.write(cmd)\<close>: the call is recorded whether or not it raises.\<close>

definition write_visa :: "'d instrument \<Rightarrow> string \<Rightarrow> 'd session \<Rightarrow> (error + unit) \<times> 'd session" where
  "write_visa ins cmd s =
     (case on_write ins cmd (device s) of
        (None, d) \<Rightarrow> (Inr (), \<lparr>device = d, trace = trace s @ [Write cmd None]\<rparr>)
      | (Some e, d) \<Rightarrow> (Inl (VisaError e), \<lparr>device = d, trace = trace s @ [Write cmd (Some e)]\<rparr>))"

text \<open>\<^verbatim>\<open>resource.query(cmd)\<close>: returns the response text or raises.\<close>

definition query :: "'d instrument \<Rightarrow> string \<Rightarrow> 'd session \<Rightarrow> (error + string) \<times> 'd session" where
  "query ins cmd s =
     (case on_query ins cmd (device s) of
        (Inr data, d) \<Rightarrow> (Inr data, \<lparr>device = d, trace = trace s @ [Query cmd (Inr data)]\<rparr>)
      | (Inl e, d) \<Rightarrow> (Inl (VisaError e), \<lparr>device = d, trace = trace s @ [Query cmd (Inl e)]\<rparr>))"

text \<open>\<^verbatim>\<open>resource.ask(cmd)\<close> is the name \<^verbatim>\<open>query\<close> had in older PyVISA releases.\<close>

definition ask :: "'d instrument \<Rightarrow> string \<Rightarrow> 'd session \<Rightarrow> (error + string) \<times> 'd session" where
  "ask ins cmd s = query ins cmd s"

text \<open>Statement sequencing: an exception in the first statement skips the rest.\<close>

definition and_then ::
  "('s \<Rightarrow> (error + unit) \<times> 's) \<Rightarrow> ('s \<Rightarrow> (error + 'a) \<times> 's) \<Rightarrow> 's \<Rightarrow> (error + 'a) \<times> 's" where
  "and_then m n s = (case m s of (Inl e, s') \<Rightarrow> (Inl e, s') | (Inr _, s') \<Rightarrow> n s')"

subsection \<open>Python built-ins used on the data\<close>

text \<open>
  \<^verbatim>\<open>str\<close> and \<^verbatim>\<open>float\<close> are built-ins of the language, not code of the notebooks, and
  \<^verbatim>\<open>float\<close> computes in IEEE-754 doubles. Both are parameters of every procedure below:
  \<open>str :: 'v \<Rightarrow> string\<close> on the values handed in, and \<open>float :: string \<Rightarrow> 'f option\<close>, with
  \<open>None\<close> where \<^verbatim>\<open>float\<close> raises \<^verbatim>\<open>ValueError\<close>.

  \<^verbatim>\<open>s.split(',')\<close> cuts at every comma and keeps empty fields, so the text without a
  comma gives one field.
\<close>

fun str_split :: "char \<Rightarrow> string \<Rightarrow> string list" where
  "str_split sep [] = [[]]"
| "str_split sep (c # cs) =
     (if c = sep then [] # str_split sep cs
      else (case str_split sep cs of
              [] \<Rightarrow> [[c]]
            | item # items \<Rightarrow> (c # item) # items))"

text \<open>\<^verbatim>\<open>[float(item) for item in data]\<close>: the first item that does not convert raises.\<close>

fun float_items :: "(string \<Rightarrow> 'f option) \<Rightarrow> string list \<Rightarrow> error + 'f list" where
  "float_items float [] = Inr []"
| "float_items float (item # items) =
     (case float item of
        None \<Rightarrow> Inl ValueError
      | Some x \<Rightarrow> (case float_items float items of
                    Inl e \<Rightarrow> Inl e
                  | Inr xs \<Rightarrow> Inr (x # xs)))"

text \<open>\<^verbatim>\<open>data[1]\<close> on a list.\<close>

definition item1 :: "'f list \<Rightarrow> error + 'f" where
  "item1 data = (if 1 < length data then Inr (data ! 1) else Inl IndexError)"

subsection \<open>Keithley 2400 (Lesson5.ipynb)\<close>

definition k2400_setup ::
  "'d instrument \<Rightarrow> ('v \<Rightarrow> string) \<Rightarrow> string \<Rightarrow> 'v \<Rightarrow> 'v \<Rightarrow> 'v \<Rightarrow> 'd session
     \<Rightarrow> (error + unit) \<times> 'd session" where
  "k2400_setup ins str func v_range i_range delay =
     and_then (write_visa ins ''OUTP OFF'')
    (and_then (write_visa ins '':SOUR:CLE:AUTO OFF'')
    (and_then (write_visa ins ('':SOUR:FUNC '' @ func))
    (and_then (write_visa ins ('':SOUR:VOLT:RANG '' @ str v_range))
    (and_then (write_visa ins ('':SOUR:CURR:RANG '' @ str i_range))
              (write_visa ins ('':SOUR:DEL '' @ str delay))))))"

text \<open>
  The \<^verbatim>\<open>for\<close> loop of \<^verbatim>\<open>k2400_iv_sweep\<close>. The local list \<^verbatim>\<open>currents\<close> is returned with
  the status on every path: \<open>None\<close> when the loop ran to its end, \<open>Some e\<close> when the
  body raised \<open>e\<close>, with \<^verbatim>\<open>currents\<close> as it was at that moment.
\<close>

fun k2400_for ::
  "'d instrument \<Rightarrow> ('v \<Rightarrow> string) \<Rightarrow> (string \<Rightarrow> 'f option) \<Rightarrow> 'v list \<Rightarrow> 'f list \<Rightarrow> 'd session
     \<Rightarrow> error option \<times> 'f list \<times> 'd session" where
  "k2400_for ins str float [] currents s = (None, currents, s)"
| "k2400_for ins str float (voltage # rest) currents s =
     (case write_visa ins ('':SOUR:VOLT '' @ str voltage) s of
        (Inl e, s1) \<Rightarrow> (Some e, currents, s1)
      | (Inr _, s1) \<Rightarrow>
          (case query ins '':MEAS:CURR?'' s1 of
             (Inl e, s2) \<Rightarrow> (Some e, currents, s2)
           | (Inr data, s2) \<Rightarrow>
               (case float_items float (str_split CHR '','' data) of
                  Inl e \<Rightarrow> (Some e, currents, s2)
                | Inr items \<Rightarrow>
                    (case item1 items of
                       Inl e \<Rightarrow> (Some e, currents, s2)
                     | Inr x \<Rightarrow> k2400_for ins str float rest (currents @ [x]) s2))))"

definition k2400_iv_sweep ::
  "'d instrument \<Rightarrow> ('v \<Rightarrow> string) \<Rightarrow> (string \<Rightarrow> 'f option) \<Rightarrow> 'v list \<Rightarrow> 'd session
     \<Rightarrow> (error + 'f list) \<times> 'd session" where
  "k2400_iv_sweep ins str float v_sweep s =
     (case k2400_for ins str float v_sweep [] s of
        (Some e, currents, s1) \<Rightarrow> (Inl e, s1)
      | (None, currents, s1) \<Rightarrow>
          (case write_visa ins ''OUTP OFF'' s1 of
             (Inl e, s2) \<Rightarrow> (Inl e, s2)
           | (Inr _, s2) \<Rightarrow> (Inr currents, s2)))"

subsection \<open>Keithley 2614B (the second notebook)\<close>

definition k2614B_setup ::
  "'d instrument \<Rightarrow> ('v \<Rightarrow> string) \<Rightarrow> string \<Rightarrow> string \<Rightarrow> 'v \<Rightarrow> 'v \<Rightarrow> 'v \<Rightarrow> 'd session
     \<Rightarrow> (error + unit) \<times> 'd session" where
  "k2614B_setup ins str sfunc mfunc v_range i_range delay =
     and_then (write_visa ins ''smua.source.output = smua.OUTPUT_OFF'')
    (and_then (write_visa ins (''smua.source.func = smua.OUTPUT_'' @ sfunc))
    (and_then (write_visa ins ''display.smua.measure.func = display.MEASURE_DCAMPS'')
    (and_then (write_visa ins (''smua.measure.rangev = '' @ str v_range))
    (and_then (write_visa ins (''smua.measure.rangei = '' @ str i_range))
              (write_visa ins (''smua.measure.delay = '' @ str delay))))))"

fun k2614B_for ::
  "'d instrument \<Rightarrow> ('v \<Rightarrow> string) \<Rightarrow> (string \<Rightarrow> 'f option) \<Rightarrow> 'v list \<Rightarrow> 'f list \<Rightarrow> 'd session
     \<Rightarrow> error option \<times> 'f list \<times> 'd session" where
  "k2614B_for ins str float [] currents s = (None, currents, s)"
| "k2614B_for ins str float (voltage # rest) currents s =
     (case write_visa ins (''smua.source.levelv = '' @ str voltage) s of
        (Inl e, s1) \<Rightarrow> (Some e, currents, s1)
      | (Inr _, s1) \<Rightarrow>
          (case ask ins ''print(smua.measure.i())'' s1 of
             (Inl e, s2) \<Rightarrow> (Some e, currents, s2)
           | (Inr data, s2) \<Rightarrow>
               (case float data of
                  None \<Rightarrow> (Some ValueError, currents, s2)
                | Some x \<Rightarrow> k2614B_for ins str float rest (currents @ [x]) s2)))"

definition k2614B_iv_sweep ::
  "'d instrument \<Rightarrow> ('v \<Rightarrow> string) \<Rightarrow> (string \<Rightarrow> 'f option) \<Rightarrow> 'v list \<Rightarrow> 'd session
     \<Rightarrow> (error + 'f list) \<times> 'd session" where
  "k2614B_iv_sweep ins str float v_sweep s =
     (case write_visa ins ''smua.source.output = smua.OUTPUT_ON'' s of
        (Inl e, s1) \<Rightarrow> (Inl e, s1)
      | (Inr _, s1) \<Rightarrow>
          (case k2614B_for ins str float v_sweep [] s1 of
             (Some e, currents, s2) \<Rightarrow> (Inl e, s2)
           | (None, currents, s2) \<Rightarrow>
               (case write_visa ins ''smua.source.output = smua.OUTPUT_OFF'' s2 of
                  (Inl e, s3) \<Rightarrow> (Inl e, s3)
                | (Inr _, s3) \<Rightarrow> (Inr currents, s3))))"

subsection \<open>The common shape of the two loops\<close>

text \<open>
  Both loops write a source level, ask for a measurement, turn the response into a
  number and append it. They differ in the command texts and in how the response is read.
  \<open>sweep_for\<close> is that shape with the three as parameters; each loop is shown equal to
  an instance of it, so that a property is proved once for both.
\<close>

fun sweep_for ::
  "'d instrument \<Rightarrow> ('v \<Rightarrow> string) \<Rightarrow> string \<Rightarrow> (string \<Rightarrow> error + 'f) \<Rightarrow> 'v list \<Rightarrow> 'f list
     \<Rightarrow> 'd session \<Rightarrow> error option \<times> 'f list \<times> 'd session" where
  "sweep_for ins level meas parse [] currents s = (None, currents, s)"
| "sweep_for ins level meas parse (voltage # rest) currents s =
     (case write_visa ins (level voltage) s of
        (Inl e, s1) \<Rightarrow> (Some e, currents, s1)
      | (Inr _, s1) \<Rightarrow>
          (case query ins meas s1 of
             (Inl e, s2) \<Rightarrow> (Some e, currents, s2)
           | (Inr data, s2) \<Rightarrow>
               (case parse data of
                  Inl e \<Rightarrow> (Some e, currents, s2)
                | Inr x \<Rightarrow> sweep_for ins level meas parse rest (currents @ [x]) s2)))"

text \<open>How each loop reads one response.\<close>

definition k2400_parse :: "(string \<Rightarrow> 'f option) \<Rightarrow> string \<Rightarrow> error + 'f" where
  "k2400_parse float data =
     (case float_items float (str_split CHR '','' data) of
        Inl e \<Rightarrow> Inl e
      | Inr items \<Rightarrow> item1 items)"

definition k2614B_parse :: "(string \<Rightarrow> 'f option) \<Rightarrow> string \<Rightarrow> error + 'f" where
  "k2614B_parse float data = (case float data of None \<Rightarrow> Inl ValueError | Some x \<Rightarrow> Inr x)"

definition k2400_level :: "('v \<Rightarrow> string) \<Rightarrow> 'v \<Rightarrow> string" where
  "k2400_level str voltage = '':SOUR:VOLT '' @ str voltage"

definition k2614B_level :: "('v \<Rightarrow> string) \<Rightarrow> 'v \<Rightarrow> string" where
  "k2614B_level str voltage = ''smua.source.levelv = '' @ str voltage"

subsection \<open>Observing a run\<close>

text \<open>The calls a procedure made: what the trace gained between two sessions.\<close>

definition issued :: "'d session \<Rightarrow> 'd session \<Rightarrow> event list" where
  "issued s s' = drop (length (trace s)) (trace s')"

text \<open>A call without its outcome.\<close>

datatype call = Wr string | Qu string

fun call_of :: "event \<Rightarrow> call" where
  "call_of (Write cmd outcome) = Wr cmd"
| "call_of (Query cmd outcome) = Qu cmd"

fun succeeded :: "event \<Rightarrow> bool" where
  "succeeded (Write cmd None) = True"
| "succeeded (Write cmd (Some e)) = False"
| "succeeded (Query cmd (Inr data)) = True"
| "succeeded (Query cmd (Inl e)) = False"

text \<open>The response texts the queries returned, in order.\<close>

fun responses :: "event list \<Rightarrow> string list" where
  "responses [] = []"
| "responses (Query cmd (Inr data) # evs) = data # responses evs"
| "responses (ev # evs) = responses evs"

text \<open>The events of set-points that went through: one write and one answered query each.\<close>

definition steps_ok :: "('v \<Rightarrow> string) \<Rightarrow> string \<Rightarrow> ('v \<times> string) list \<Rightarrow> event list" where
  "steps_ok level meas vrs =
     concat (map (\<lambda>(v, r). [Write (level v) None, Query meas (Inr r)]) vrs)"

subsection \<open>A scripted instrument and decimal texts, for concrete runs\<close>

text \<open>
  An instrument that accepts every write and answers the queries from a script, one
  entry per query, raising a timeout once the script is used up.
\<close>

definition scripted :: "(visa_error + string) list instrument" where
  "scripted =
     \<lparr>on_write = (\<lambda>cmd d. (None, d)),
      on_query = (\<lambda>cmd d. case d of [] \<Rightarrow> (Inl TimeoutError, []) | r # rs \<Rightarrow> (r, rs))\<rparr>"

definition script :: "(visa_error + string) list \<Rightarrow> (visa_error + string) list session" where
  "script rs = \<lparr>device = rs, trace = []\<rparr>"

text \<open>
  \<^verbatim>\<open>float\<close> on the texts of the concrete runs on the scripted instrument.
  \<open>float_whole\<close> reads an optional minus sign followed by decimal digits as that whole
  number and rejects every other text. It agrees with \<^verbatim>\<open>float\<close> on the texts those runs
  use: whole numbers of one or two digits, which \<^verbatim>\<open>float\<close> converts exactly, and
  \<^verbatim>\<open>abc\<close>, on which \<^verbatim>\<open>float\<close> raises. It is not \<^verbatim>\<open>float\<close> in general:
  \<^verbatim>\<open>float\<close> also reads a decimal point, an exponent, a plus sign, blanks and
  underscores and the words \<^verbatim>\<open>inf\<close>, \<^verbatim>\<open>infinity\<close> and \<^verbatim>\<open>nan\<close>, and it rounds digit
  strings too long for a double. \<^verbatim>\<open>str\<close> in those runs is the identity, as it is on a
  Python string: the set-points and the setup parameters are handed in as texts.
\<close>

definition digit_val :: "char \<Rightarrow> nat option" where
  "digit_val c =
     (let n = (of_char c :: nat) in if 48 \<le> n \<and> n \<le> 57 then Some (n - 48) else None)"

fun digits_val :: "nat \<Rightarrow> string \<Rightarrow> nat option" where
  "digits_val acc [] = Some acc"
| "digits_val acc (c # cs) =
     (case digit_val c of None \<Rightarrow> None | Some d \<Rightarrow> digits_val (10 * acc + d) cs)"

definition float_whole :: "string \<Rightarrow> int option" where
  "float_whole text =
     (case text of
        [] \<Rightarrow> None
      | c # cs \<Rightarrow>
          if c = CHR ''-'' then (if cs = [] then None else map_option (\<lambda>n. - int n) (digits_val 0 cs))
          else map_option int (digits_val 0 text))"

definition str_text :: "string \<Rightarrow> string" where
  "str_text text = text"

text \<open>
  How a set-point fails: the write raises, the query raises, or the response does not
  convert. \<open>tail\<close> is what that set-point added to the trace, \<open>e\<close> the exception.
\<close>

definition step_fails ::
  "('v \<Rightarrow> string) \<Rightarrow> string \<Rightarrow> (string \<Rightarrow> error + 'f) \<Rightarrow> 'v \<Rightarrow> error \<Rightarrow> event list \<Rightarrow> bool" where
  "step_fails level meas parse v e tail \<longleftrightarrow>
     (\<exists>ve. e = VisaError ve \<and> tail = [Write (level v) (Some ve)]) \<or>
     (\<exists>ve. e = VisaError ve \<and> tail = [Write (level v) None, Query meas (Inl ve)]) \<or>
     (\<exists>r. parse r = Inl e \<and> tail = [Write (level v) None, Query meas (Inr r)])"

text \<open>
  A list of writes, one after the other, stopping at the first that raises: what the
  straight-line bodies of the two setup procedures amount to.
\<close>

fun write_all :: "'d instrument \<Rightarrow> string list \<Rightarrow> 'd session \<Rightarrow> (error + unit) \<times> 'd session" where
  "write_all ins [] s = (Inr (), s)"
| "write_all ins (cmd # cmds) s =
     (case write_visa ins cmd s of
        (Inl e, s1) \<Rightarrow> (Inl e, s1)
      | (Inr _, s1) \<Rightarrow> write_all ins cmds s1)"

subsection \<open>A resistor behind the resource\<close>

text \<open>The rest of a command after a given beginning, if it begins so.\<close>

fun after_prefix :: "string \<Rightarrow> string \<Rightarrow> string option" where
  "after_prefix [] cmd = Some cmd"
| "after_prefix (p # ps) [] = None"
| "after_prefix (p # ps) (c # cs) = (if p = c then after_prefix ps cs else None)"

text \<open>
  Modelled from the spec: the connection stub of the example scenario, "returning
  current = voltage/1000 (simulated 1 kilo-ohm resistor)", which is not code of the
  notebooks. Its state is the level last written: a write whose text is the
  source-level command followed by a number \<^verbatim>\<open>float\<close> can read sets it, any other write
  is accepted and changes nothing, and every query is answered with the text
  \<open>respond level (level / 1000)\<close>. Numbers are rationals, so the division is exact; in
  Python the five quotients of the scenario are the doubles nearest to these.
\<close>

definition resistor_1k ::
  "string \<Rightarrow> (rat \<Rightarrow> rat \<Rightarrow> string) \<Rightarrow> (string \<Rightarrow> rat option) \<Rightarrow> rat instrument" where
  "resistor_1k level_cmd respond float =
     \<lparr>on_write = (\<lambda>cmd level.
        (None, case after_prefix level_cmd cmd of
                 None \<Rightarrow> level
               | Some arg \<Rightarrow> (case float arg of None \<Rightarrow> level | Some v \<Rightarrow> v))),
      on_query = (\<lambda>cmd level. (Inr (respond level (level / 1000)), level))\<rparr>"

text \<open>
  The 2400 is answered with the voltage and the current separated by a comma, the
  current where \<open>k2400_iv_sweep\<close> reads it; the 2614B with the current alone.
\<close>

definition k2400_stub :: "(rat \<Rightarrow> string) \<Rightarrow> (string \<Rightarrow> rat option) \<Rightarrow> rat instrument" where
  "k2400_stub str float = resistor_1k '':SOUR:VOLT '' (\<lambda>v i. str v @ '','' @ str i) float"

definition k2614B_stub :: "(rat \<Rightarrow> string) \<Rightarrow> (string \<Rightarrow> rat option) \<Rightarrow> rat instrument" where
  "k2614B_stub str float = resistor_1k ''smua.source.levelv = '' (\<lambda>v i. str i) float"

text \<open>
  \<^verbatim>\<open>float\<close> and \<^verbatim>\<open>str\<close> on the numbers of the scenario, for its concrete run. \<open>float_dec\<close>
  reads an optional minus sign, digits and, optionally, a point and more digits as the
  rational number that text denotes (\<^verbatim>\<open>float\<close> gives the double nearest to it, and
  accepts more texts). \<open>str_dec\<close> prints the five voltages, their thousandths and the two
  ranges as Python prints those floats; it is not \<^verbatim>\<open>str\<close> on any other number.
\<close>

definition dec_val :: "string \<Rightarrow> rat option" where
  "dec_val digits =
     (case str_split CHR ''.'' digits of
        [ipart] \<Rightarrow> (if ipart = [] then None else map_option rat_of_nat (digits_val 0 ipart))
      | [ipart, fpart] \<Rightarrow>
          (if ipart = [] \<or> fpart = [] then None
           else (case (digits_val 0 ipart, digits_val 0 fpart) of
                   (Some n, Some m) \<Rightarrow> Some (rat_of_nat n + rat_of_nat m / 10 ^ length fpart)
                 | _ \<Rightarrow> None))
      | _ \<Rightarrow> None)"

definition float_dec :: "string \<Rightarrow> rat option" where
  "float_dec line =
     (case line of
        [] \<Rightarrow> None
      | c # cs \<Rightarrow> if c = CHR ''-'' then map_option uminus (dec_val cs) else dec_val line)"

definition str_dec :: "rat \<Rightarrow> string" where
  "str_dec x =
     (if x = - 1 then ''-1.0'' else if x = - 1 / 2 then ''-0.5'' else if x = 0 then ''0.0''
      else if x = 1 / 2 then ''0.5'' else if x = 1 then ''1.0''
      else if x = - 1 / 1000 then ''-0.001'' else if x = - 1 / 2000 then ''-0.0005''
      else if x = 1 / 2000 then ''0.0005'' else if x = 1 / 1000 then ''0.001''
      else if x = 2 then ''2.0'' else if x = 1 / 10 then ''0.1'' else ''nan'')"

text \<open>A session before any call, the level at zero.\<close>

definition bench :: "rat session" where
  "bench = \<lparr>device = 0, trace = []\<rparr>"

section \<open>Properties\<close>

subsection \<open>The resource calls\<close>

lemma write_visa_Inr:
  "write_visa ins c s = (Inr u, s') \<Longrightarrow> trace s' = trace s @ [Write c None]"
  by (auto simp: write_visa_def split: prod.splits option.splits)

lemma write_visa_Inl:
  "write_visa ins c s = (Inl e, s') \<Longrightarrow>
     \<exists>ve. e = VisaError ve \<and> trace s' = trace s @ [Write c (Some ve)]"
  by (auto simp: write_visa_def split: prod.splits option.splits)

lemma query_Inr:
  "query ins c s = (Inr r, s') \<Longrightarrow> trace s' = trace s @ [Query c (Inr r)]"
  by (auto simp: query_def split: prod.splits sum.splits)

lemma query_Inl:
  "query ins c s = (Inl e, s') \<Longrightarrow>
     \<exists>ve. e = VisaError ve \<and> trace s' = trace s @ [Query c (Inl ve)]"
  by (auto simp: query_def split: prod.splits sum.splits)

lemma issued_append: "trace s' = trace s @ evs \<Longrightarrow> issued s s' = evs"
  by (simp add: issued_def)

subsection \<open>The loops are instances of the common shape\<close>

lemma k2400_for_eq:
  "k2400_for ins str float vs acc s =
     sweep_for ins (k2400_level str) '':MEAS:CURR?'' (k2400_parse float) vs acc s"
  by (induction vs arbitrary: acc s)
     (auto simp: k2400_level_def k2400_parse_def split: prod.splits sum.splits)

lemma k2614B_for_eq:
  "k2614B_for ins str float vs acc s =
     sweep_for ins (k2614B_level str) ''print(smua.measure.i())'' (k2614B_parse float) vs acc s"
  by (induction vs arbitrary: acc s)
     (auto simp: k2614B_level_def k2614B_parse_def ask_def
           split: prod.splits sum.splits option.splits)

subsection \<open>What a loop leaves behind\<close>

text \<open>
  A loop that runs to its end has appended one value per set-point, each read from the
  response of that set-point's query, and the trace gained one accepted write and one
  answered query per set-point.
\<close>

lemma sweep_for_None:
  "sweep_for ins level meas parse vs acc s = (None, cs, s') \<Longrightarrow>
     \<exists>rs xs. length rs = length vs \<and> length xs = length vs \<and> cs = acc @ xs \<and>
       map parse rs = map Inr xs \<and> trace s' = trace s @ steps_ok level meas (zip vs rs)"
proof (induction vs arbitrary: acc s)
  case Nil
  then show ?case by (simp add: steps_ok_def)
next
  case (Cons v vs)
  from Cons.prems obtain u s1 data s2 x where
    w: "write_visa ins (level v) s = (Inr u, s1)" and
    q: "query ins meas s1 = (Inr data, s2)" and
    p: "parse data = Inr x" and
    r: "sweep_for ins level meas parse vs (acc @ [x]) s2 = (None, cs, s')"
    by (auto split: prod.splits sum.splits)
  from Cons.IH [OF r] obtain rs xs where
    ih: "length rs = length vs" "length xs = length vs" "cs = (acc @ [x]) @ xs"
      "map parse rs = map Inr xs" "trace s' = trace s2 @ steps_ok level meas (zip vs rs)"
    by blast
  have t: "trace s2 = trace s @ [Write (level v) None, Query meas (Inr data)]"
    using write_visa_Inr [OF w] query_Inr [OF q] by simp
  show ?case
    apply (rule exI [of _ "data # rs"])
    apply (rule exI [of _ "x # xs"])
    using ih t p by (simp add: steps_ok_def)
qed

text \<open>
  A loop that raises stopped at one set-point: the set-points before it went through,
  their values are all that \<open>currents\<close> gained, and nothing follows the failing call.
\<close>

lemma sweep_for_Some:
  "sweep_for ins level meas parse vs acc s = (Some e, cs, s') \<Longrightarrow>
     \<exists>pre v post rs xs tail. vs = pre @ v # post \<and> length rs = length pre \<and>
       length xs = length pre \<and> cs = acc @ xs \<and> map parse rs = map Inr xs \<and>
       trace s' = trace s @ steps_ok level meas (zip pre rs) @ tail \<and>
       step_fails level meas parse v e tail"
proof (induction vs arbitrary: acc s)
  case Nil
  then show ?case by simp
next
  case (Cons v vs)
  let ?now = "\<lambda>tail. [] @ v # vs = v # vs \<and> length ([]::string list) = length ([]::'a list) \<and>
       cs = acc @ [] \<and> trace s' = trace s @ steps_ok level meas (zip [] []) @ tail \<and>
       step_fails level meas parse v e tail"
  consider
    (wfail) "write_visa ins (level v) s = (Inl e, s')" "cs = acc"
  | (qfail) u s1 where "write_visa ins (level v) s = (Inr u, s1)"
      "query ins meas s1 = (Inl e, s')" "cs = acc"
  | (pfail) u s1 data where "write_visa ins (level v) s = (Inr u, s1)"
      "query ins meas s1 = (Inr data, s')" "parse data = Inl e" "cs = acc"
  | (later) u s1 data s2 x where "write_visa ins (level v) s = (Inr u, s1)"
      "query ins meas s1 = (Inr data, s2)" "parse data = Inr x"
      "sweep_for ins level meas parse vs (acc @ [x]) s2 = (Some e, cs, s')"
    using Cons.prems by (auto split: prod.splits sum.splits)
  then show ?case
  proof cases
    case wfail
    from write_visa_Inl [OF wfail(1)] obtain ve where
      "e = VisaError ve" "trace s' = trace s @ [Write (level v) (Some ve)]"
      by blast
    then have "?now [Write (level v) (Some ve)]"
      using wfail by (simp add: steps_ok_def step_fails_def)
    then show ?thesis
      by (metis list.map(1) list.size(3))
  next
    case qfail
    from query_Inl [OF qfail(2)] write_visa_Inr [OF qfail(1)] obtain ve where
      "e = VisaError ve" "trace s' = trace s @ [Write (level v) None, Query meas (Inl ve)]"
      by auto
    then have "?now [Write (level v) None, Query meas (Inl ve)]"
      using qfail by (simp add: steps_ok_def step_fails_def)
    then show ?thesis
      by (metis list.map(1) list.size(3))
  next
    case pfail
    from query_Inr [OF pfail(2)] write_visa_Inr [OF pfail(1)] have
      "trace s' = trace s @ [Write (level v) None, Query meas (Inr data)]"
      by auto
    then have "?now [Write (level v) None, Query meas (Inr data)]"
      using pfail by (simp add: steps_ok_def step_fails_def)
    then show ?thesis
      by (metis list.map(1) list.size(3))
  next
    case later
    from Cons.IH [OF later(4)] obtain pre w post rs xs tail where
      ih: "vs = pre @ w # post" "length rs = length pre" "length xs = length pre"
        "cs = (acc @ [x]) @ xs" "map parse rs = map Inr xs"
        "trace s' = trace s2 @ steps_ok level meas (zip pre rs) @ tail"
        "step_fails level meas parse w e tail"
      by blast
    have t: "trace s2 = trace s @ [Write (level v) None, Query meas (Inr data)]"
      using write_visa_Inr [OF later(1)] query_Inr [OF later(2)] by simp
    have "v # vs = (v # pre) @ w # post \<and> length (data # rs) = length (v # pre) \<and>
       length (x # xs) = length (v # pre) \<and> cs = acc @ (x # xs) \<and>
       map parse (data # rs) = map Inr (x # xs) \<and>
       trace s' = trace s @ steps_ok level meas (zip (v # pre) (data # rs)) @ tail \<and>
       step_fails level meas parse w e tail"
      using ih t later(3) by (simp add: steps_ok_def)
    then show ?thesis by blast
  qed
qed

subsection \<open>Facts about traces\<close>

lemma calls_steps_ok:
  "length rs = length vs \<Longrightarrow>
     map call_of (steps_ok level meas (zip vs rs)) = concat (map (\<lambda>v. [Wr (level v), Qu meas]) vs)"
  by (induction vs rs rule: list_induct2') (simp_all add: steps_ok_def)

lemma succeeded_steps_ok: "ev \<in> set (steps_ok level meas vrs) \<Longrightarrow> succeeded ev"
  by (induction vrs) (auto simp: steps_ok_def)

lemma responses_append: "responses (xs @ ys) = responses xs @ responses ys"
  by (induction xs rule: responses.induct) simp_all

lemma responses_steps_ok:
  "length rs = length vs \<Longrightarrow> responses (steps_ok level meas (zip vs rs)) = rs"
  by (induction vs rs rule: list_induct2') (simp_all add: steps_ok_def)

lemma length_steps_ok: "length (steps_ok level meas vrs) = 2 * length vrs"
  by (induction vrs) (auto simp: steps_ok_def)

lemma steps_ok_Cons:
  "steps_ok level meas ((v, r) # vrs) = Write (level v) None # Query meas (Inr r) # steps_ok level meas vrs"
  by (simp add: steps_ok_def)

lemma nth_steps_ok:
  "i < length vrs \<Longrightarrow>
     steps_ok level meas vrs ! (2 * i) = Write (level (fst (vrs ! i))) None \<and>
     steps_ok level meas vrs ! (2 * i + 1) = Query meas (Inr (snd (vrs ! i)))"
proof (induction vrs arbitrary: i)
  case Nil
  then show ?case by simp
next
  case (Cons vr vrs)
  obtain v r where vr: "vr = (v, r)" by (cases vr)
  show ?case
  proof (cases i)
    case 0
    then show ?thesis by (simp add: vr steps_ok_Cons)
  next
    case (Suc j)
    with Cons.prems have "j < length vrs" by simp
    from Cons.IH [OF this] show ?thesis
      by (simp add: vr steps_ok_Cons Suc)
  qed
qed

lemma query_in_steps_ok:
  "Query c (Inr r) \<in> set (steps_ok level meas vrs) \<Longrightarrow> r \<in> snd ` set vrs"
  by (induction vrs) (auto simp: steps_ok_def)

lemma parsed_in_set:
  assumes "map parse rs = map Inr xs" "r \<in> set rs"
  shows "\<exists>x. parse r = Inr x"
proof -
  from assms(2) obtain i where "i < length rs" "rs ! i = r"
    by (auto simp: in_set_conv_nth)
  moreover from assms(1) have "length rs = length xs"
    by (metis length_map)
  ultimately have "parse r = Inr (xs ! i)"
    using assms(1) by (metis nth_map)
  then show ?thesis by blast
qed

subsection \<open>The four ways a 2614B sweep ends\<close>

lemma k2614B_iv_sweep_cases [consumes 1, case_names enable_fails loop_fails disable_fails returns]:
  assumes run: "k2614B_iv_sweep ins str float vs s = (res, s')"
  obtains
    (enable_fails) ve where "res = Inl (VisaError ve)"
      "issued s s' = [Write ''smua.source.output = smua.OUTPUT_ON'' (Some ve)]"
  | (loop_fails) e pre v post rs xs tail s1 where
      "write_visa ins ''smua.source.output = smua.OUTPUT_ON'' s = (Inr (), s1)"
      "k2614B_for ins str float vs [] s1 = (Some e, xs, s')"
      "res = Inl e" "vs = pre @ v # post" "length rs = length pre" "length xs = length pre"
      "map (k2614B_parse float) rs = map Inr xs"
      "issued s s' = Write ''smua.source.output = smua.OUTPUT_ON'' None #
         steps_ok (k2614B_level str) ''print(smua.measure.i())'' (zip pre rs) @ tail"
      "issued s1 s' = steps_ok (k2614B_level str) ''print(smua.measure.i())'' (zip pre rs) @ tail"
      "step_fails (k2614B_level str) ''print(smua.measure.i())'' (k2614B_parse float) v e tail"
  | (disable_fails) ve rs xs where "res = Inl (VisaError ve)"
      "length rs = length vs" "length xs = length vs"
      "map (k2614B_parse float) rs = map Inr xs"
      "issued s s' = Write ''smua.source.output = smua.OUTPUT_ON'' None #
         steps_ok (k2614B_level str) ''print(smua.measure.i())'' (zip vs rs) @
         [Write ''smua.source.output = smua.OUTPUT_OFF'' (Some ve)]"
  | (returns) rs xs where "res = Inr xs"
      "length rs = length vs" "length xs = length vs"
      "map (k2614B_parse float) rs = map Inr xs"
      "issued s s' = Write ''smua.source.output = smua.OUTPUT_ON'' None #
         steps_ok (k2614B_level str) ''print(smua.measure.i())'' (zip vs rs) @
         [Write ''smua.source.output = smua.OUTPUT_OFF'' None]"
proof -
  let ?on = "''smua.source.output = smua.OUTPUT_ON''"
  let ?off = "''smua.source.output = smua.OUTPUT_OFF''"
  let ?L = "k2614B_level str" and ?M = "''print(smua.measure.i())''" and ?P = "k2614B_parse float"
  obtain r1 s1 where w1: "write_visa ins ?on s = (r1, s1)" by (cases "write_visa ins ?on s")
  show thesis
  proof (cases r1)
    case (Inl e)
    with run w1 have "res = Inl e" "s' = s1"
      by (simp_all add: k2614B_iv_sweep_def)
    with write_visa_Inl [of ins ?on s e s1] w1 Inl show thesis
      by (auto intro: enable_fails dest: issued_append)
  next
    case (Inr u)
    with w1 have t1: "trace s1 = trace s @ [Write ?on None]"
      by (auto dest: write_visa_Inr)
    obtain st cs s2 where lp: "k2614B_for ins str float vs [] s1 = (st, cs, s2)"
      by (cases "k2614B_for ins str float vs [] s1")
    show thesis
    proof (cases st)
      case (Some e)
      with run w1 Inr lp have r: "res = Inl e" "s' = s2"
        by (simp_all add: k2614B_iv_sweep_def)
      from lp Some have "sweep_for ins ?L ?M ?P vs [] s1 = (Some e, cs, s2)"
        by (simp add: k2614B_for_eq)
      from sweep_for_Some [OF this] obtain pre v post rs xs tail where
        d: "vs = pre @ v # post" "length rs = length pre" "length xs = length pre"
          "cs = [] @ xs" "map ?P rs = map Inr xs"
          "trace s2 = trace s1 @ steps_ok ?L ?M (zip pre rs) @ tail"
          "step_fails ?L ?M ?P v e tail"
        by blast
      have "issued s s' = Write ?on None # steps_ok ?L ?M (zip pre rs) @ tail"
        using d(6) t1 r by (simp add: issued_def)
      moreover have "issued s1 s' = steps_ok ?L ?M (zip pre rs) @ tail"
        using d(6) r by (simp add: issued_def)
      ultimately show thesis
        using loop_fails [of s1 e xs pre v post rs tail] w1 Inr lp Some r d by simp
    next
      case None
      with lp have "sweep_for ins ?L ?M ?P vs [] s1 = (None, cs, s2)"
        by (simp add: k2614B_for_eq)
      from sweep_for_None [OF this] obtain rs xs where
        d: "length rs = length vs" "length xs = length vs" "cs = [] @ xs"
          "map ?P rs = map Inr xs" "trace s2 = trace s1 @ steps_ok ?L ?M (zip vs rs)"
        by blast
      obtain r3 s3 where w3: "write_visa ins ?off s2 = (r3, s3)"
        by (cases "write_visa ins ?off s2")
      show thesis
      proof (cases r3)
        case (Inl e)
        with run w1 Inr lp None w3 have r: "res = Inl e" "s' = s3"
          by (simp_all add: k2614B_iv_sweep_def)
        from write_visa_Inl [of ins ?off s2 e s3] w3 Inl obtain ve where
          "e = VisaError ve" "trace s3 = trace s2 @ [Write ?off (Some ve)]"
          by auto
        then show thesis
          using disable_fails [of ve rs xs] r d t1 by (simp add: issued_def)
      next
        case (Inr u3)
        with run w1 \<open>r1 = Inr u\<close> lp None w3 have r: "res = Inr cs" "s' = s3"
          by (simp_all add: k2614B_iv_sweep_def)
        from write_visa_Inr [of ins ?off s2 u3 s3] w3 Inr have
          "trace s3 = trace s2 @ [Write ?off None]"
          by auto
        then show thesis
          using returns [of xs rs] r d t1 by (simp add: issued_def)
      qed
    qed
  qed
qed

subsection \<open>The three ways a 2400 sweep ends\<close>

lemma k2400_iv_sweep_cases [consumes 1, case_names loop_fails disable_fails returns]:
  assumes run: "k2400_iv_sweep ins str float vs s = (res, s')"
  obtains
    (loop_fails) e pre v post rs xs tail where
      "k2400_for ins str float vs [] s = (Some e, xs, s')"
      "res = Inl e" "vs = pre @ v # post" "length rs = length pre" "length xs = length pre"
      "map (k2400_parse float) rs = map Inr xs"
      "issued s s' = steps_ok (k2400_level str) '':MEAS:CURR?'' (zip pre rs) @ tail"
      "step_fails (k2400_level str) '':MEAS:CURR?'' (k2400_parse float) v e tail"
  | (disable_fails) ve rs xs where "res = Inl (VisaError ve)"
      "length rs = length vs" "length xs = length vs"
      "map (k2400_parse float) rs = map Inr xs"
      "issued s s' = steps_ok (k2400_level str) '':MEAS:CURR?'' (zip vs rs) @
         [Write ''OUTP OFF'' (Some ve)]"
  | (returns) rs xs where "res = Inr xs"
      "length rs = length vs" "length xs = length vs"
      "map (k2400_parse float) rs = map Inr xs"
      "issued s s' = steps_ok (k2400_level str) '':MEAS:CURR?'' (zip vs rs) @
         [Write ''OUTP OFF'' None]"
proof -
  let ?L = "k2400_level str" and ?M = "'':MEAS:CURR?''" and ?P = "k2400_parse float"
  obtain st cs s2 where lp: "k2400_for ins str float vs [] s = (st, cs, s2)"
    by (cases "k2400_for ins str float vs [] s")
  show thesis
  proof (cases st)
    case (Some e)
    with run lp have r: "res = Inl e" "s' = s2"
      by (simp_all add: k2400_iv_sweep_def)
    from lp Some have "sweep_for ins ?L ?M ?P vs [] s = (Some e, cs, s2)"
      by (simp add: k2400_for_eq)
    from sweep_for_Some [OF this] obtain pre v post rs xs tail where
      d: "vs = pre @ v # post" "length rs = length pre" "length xs = length pre"
        "cs = [] @ xs" "map ?P rs = map Inr xs"
        "trace s2 = trace s @ steps_ok ?L ?M (zip pre rs) @ tail"
        "step_fails ?L ?M ?P v e tail"
      by blast
    have "issued s s' = steps_ok ?L ?M (zip pre rs) @ tail"
      using d(6) r by (simp add: issued_def)
    then show thesis
      using loop_fails [of e xs pre v post rs tail] lp Some r d by simp
  next
    case None
    with lp have "sweep_for ins ?L ?M ?P vs [] s = (None, cs, s2)"
      by (simp add: k2400_for_eq)
    from sweep_for_None [OF this] obtain rs xs where
      d: "length rs = length vs" "length xs = length vs" "cs = [] @ xs"
        "map ?P rs = map Inr xs" "trace s2 = trace s @ steps_ok ?L ?M (zip vs rs)"
      by blast
    obtain r3 s3 where w3: "write_visa ins ''OUTP OFF'' s2 = (r3, s3)"
      by (cases "write_visa ins ''OUTP OFF'' s2")
    show thesis
    proof (cases r3)
      case (Inl e)
      with run lp None w3 have r: "res = Inl e" "s' = s3"
        by (simp_all add: k2400_iv_sweep_def)
      from write_visa_Inl [of ins "''OUTP OFF''" s2 e s3] w3 Inl obtain ve where
        "e = VisaError ve" "trace s3 = trace s2 @ [Write ''OUTP OFF'' (Some ve)]"
        by auto
      then show thesis
        using disable_fails [of ve rs xs] r d by (simp add: issued_def)
    next
      case (Inr u3)
      with run lp None w3 have r: "res = Inr cs" "s' = s3"
        by (simp_all add: k2400_iv_sweep_def)
      from write_visa_Inr [of ins "''OUTP OFF''" s2 u3 s3] w3 Inr have
        "trace s3 = trace s2 @ [Write ''OUTP OFF'' None]"
        by auto
      then show thesis
        using returns [of xs rs] r d by (simp add: issued_def)
    qed
  qed
qed

subsection \<open>Reading a response\<close>

lemma float_items_Inl: "float_items float items = Inl e \<Longrightarrow> e = ValueError"
  by (induction items arbitrary: e) (auto split: option.splits sum.splits)

lemma float_items_Inr:
  "float_items float items = Inr xs \<longleftrightarrow> map float items = map Some xs"
proof (induction items arbitrary: xs)
  case Nil
  then show ?case by auto
next
  case (Cons a items)
  show ?case
    by (cases xs) (auto simp: Cons.IH [symmetric] split: option.splits sum.splits)
qed

lemma k2614B_parse_Inr: "k2614B_parse float r = Inr x \<longleftrightarrow> float r = Some x"
  by (simp add: k2614B_parse_def split: option.splits)

lemma k2614B_parse_Inl: "k2614B_parse float r = Inl e \<longleftrightarrow> float r = None \<and> e = ValueError"
  by (auto simp: k2614B_parse_def split: option.splits)

lemma k2400_parse_Inr:
  "k2400_parse float r = Inr x \<longleftrightarrow>
     (\<exists>items. float_items float (str_split CHR '','' r) = Inr items \<and> 1 < length items \<and>
        x = items ! 1)"
  by (auto simp: k2400_parse_def item1_def split: sum.splits)

lemma k2400_parse_Inl:
  "k2400_parse float r = Inl e \<longleftrightarrow>
     (float_items float (str_split CHR '','' r) = Inl ValueError \<and> e = ValueError) \<or>
     (\<exists>items. float_items float (str_split CHR '','' r) = Inr items \<and> length items < 2 \<and>
        e = IndexError)"
  by (auto simp: k2400_parse_def item1_def split: sum.splits dest: float_items_Inl)

lemma step_fails_not_clean:
  assumes "step_fails level meas parse v e tail"
    and "\<forall>ev \<in> set tail. succeeded ev"
    and "\<forall>r \<in> set (responses tail). \<exists>x. parse r = Inr x"
  shows False
  using assms by (auto simp: step_fails_def)

subsection \<open>A sweep that returns\<close>

lemma k2614B_returns:
  assumes "k2614B_iv_sweep ins str float vs s = (Inr cs, s')"
  shows "\<exists>rs. length rs = length vs \<and> length cs = length vs \<and>
           map (k2614B_parse float) rs = map Inr cs \<and>
           issued s s' = Write ''smua.source.output = smua.OUTPUT_ON'' None #
             steps_ok (k2614B_level str) ''print(smua.measure.i())'' (zip vs rs) @
             [Write ''smua.source.output = smua.OUTPUT_OFF'' None]"
  using assms by (cases rule: k2614B_iv_sweep_cases) auto

lemma k2400_returns:
  assumes "k2400_iv_sweep ins str float vs s = (Inr cs, s')"
  shows "\<exists>rs. length rs = length vs \<and> length cs = length vs \<and>
           map (k2400_parse float) rs = map Inr cs \<and>
           issued s s' = steps_ok (k2400_level str) '':MEAS:CURR?'' (zip vs rs) @
             [Write ''OUTP OFF'' None]"
  using assms by (cases rule: k2400_iv_sweep_cases) auto

lemma nth_steps_ok_zip:
  assumes "length rs = length vs" "i < length vs"
  shows "(steps_ok level meas (zip vs rs) @ evs) ! (2 * i) = Write (level (vs ! i)) None"
    and "(steps_ok level meas (zip vs rs) @ evs) ! (2 * i + 1) = Query meas (Inr (rs ! i))"
proof -
  have i: "i < length (zip vs rs)" using assms by simp
  have "2 * i < length (steps_ok level meas (zip vs rs))"
    and "2 * i + 1 < length (steps_ok level meas (zip vs rs))"
    using i assms by (simp_all add: length_steps_ok)
  then show "(steps_ok level meas (zip vs rs) @ evs) ! (2 * i) = Write (level (vs ! i)) None"
    and "(steps_ok level meas (zip vs rs) @ evs) ! (2 * i + 1) = Query meas (Inr (rs ! i))"
    using nth_steps_ok [OF i, of level meas] assms by (simp_all add: nth_append)
qed

lemma parsed_nth:
  assumes "map parse rs = map Inr cs" "i < length rs"
  shows "parse (rs ! i) = Inr (cs ! i)"
proof -
  from assms(1) have "length rs = length cs" by (metis length_map)
  with assms show ?thesis by (metis nth_map)
qed

subsection \<open>A response the loop cannot read\<close>

lemma response_in_responses: "Query c (Inr r) \<in> set evs \<Longrightarrow> r \<in> set (responses evs)"
  by (induction evs rule: responses.induct) auto

lemma steps_ok_parsed:
  assumes "length rs = length vs" "map parse rs = map Inr xs"
    and "Query c (Inr r) \<in> set (steps_ok level meas (zip vs rs))"
  shows "\<exists>x. parse r = Inr x"
proof -
  from query_in_steps_ok [OF assms(3)] have "r \<in> set rs"
    by (auto dest: set_zip_rightD)
  with parsed_in_set [OF assms(2)] show ?thesis by blast
qed

lemma bad_response_last:
  assumes len: "length rs = length pre" and ok: "map parse rs = map Inr xs"
    and fails: "step_fails level meas parse v e tail"
    and front: "responses front = []"
    and mem: "Query c (Inr r) \<in> set (front @ steps_ok level meas (zip pre rs) @ tail)"
    and bad: "parse r = Inl e0"
  shows "e = e0"
    and "last (front @ steps_ok level meas (zip pre rs) @ tail) = Query c (Inr r)"
    and "responses (butlast (front @ steps_ok level meas (zip pre rs) @ tail)) = rs"
proof -
  from front have "Query c (Inr r) \<notin> set front"
    using response_in_responses [of c r front] by auto
  moreover have "Query c (Inr r) \<notin> set (steps_ok level meas (zip pre rs))"
    using steps_ok_parsed [OF len ok, of c r level meas] bad by auto
  ultimately have "Query c (Inr r) \<in> set tail"
    using mem by auto
  with fails have t: "tail = [Write (level v) None, Query c (Inr r)]" and "parse r = Inl e"
    by (auto simp: step_fails_def)
  with bad show "e = e0" by simp
  from t show "last (front @ steps_ok level meas (zip pre rs) @ tail) = Query c (Inr r)"
    by simp
  have "butlast (front @ steps_ok level meas (zip pre rs) @ tail) =
      front @ steps_ok level meas (zip pre rs) @ [Write (level v) None]"
    by (simp add: t butlast_append)
  then show "responses (butlast (front @ steps_ok level meas (zip pre rs) @ tail)) = rs"
    using front len by (simp add: responses_append responses_steps_ok)
qed

lemma float_items_ValueError:
  "float_items float items = Inl ValueError \<longleftrightarrow> (\<exists>item \<in> set items. float item = None)"
  by (induction items) (auto split: option.splits sum.splits dest: float_items_Inl)

lemma k2614B_parse_map:
  "map (k2614B_parse float) rs = map Inr xs \<Longrightarrow> map float rs = map Some xs"
proof (induction rs arbitrary: xs)
  case Nil
  then show ?case by simp
next
  case (Cons r rs)
  then show ?case by (cases xs) (auto simp: k2614B_parse_Inr)
qed

subsection \<open>Which calls a sweep can make\<close>

lemma step_fails_calls:
  "step_fails level meas parse v e tail \<Longrightarrow> set (map call_of tail) \<subseteq> {Wr (level v), Qu meas}"
  by (auto simp: step_fails_def)

lemma k2614B_level_not_off:
  "k2614B_level str v \<noteq> ''smua.source.output = smua.OUTPUT_OFF''"
  by (simp add: k2614B_level_def)

lemma k2400_level_not_off: "k2400_level str v \<noteq> ''OUTP OFF''"
  by (simp add: k2400_level_def)

lemma no_call_in_steps:
  assumes "\<And>v. level v \<noteq> cmd"
  shows "Wr cmd \<notin> set (map call_of (steps_ok level meas vrs))"
proof (induction vrs)
  case Nil
  show ?case by (simp add: steps_ok_def)
next
  case (Cons vr vrs)
  obtain v r where "vr = (v, r)" by (cases vr)
  with Cons assms [of v] show ?case
    by (auto simp: steps_ok_Cons)
qed

lemma no_call_in_tail:
  assumes "step_fails level meas parse v e tail" "\<And>v. level v \<noteq> cmd"
  shows "Wr cmd \<notin> set (map call_of tail)"
  using step_fails_calls [OF assms(1)] assms(2) by auto

subsection \<open>Setup is a list of writes\<close>

lemma k2400_setup_eq:
  "k2400_setup ins str func v_range i_range delay s =
     write_all ins
       [''OUTP OFF'', '':SOUR:CLE:AUTO OFF'', '':SOUR:FUNC '' @ func,
        '':SOUR:VOLT:RANG '' @ str v_range, '':SOUR:CURR:RANG '' @ str i_range,
        '':SOUR:DEL '' @ str delay] s"
  by (simp add: k2400_setup_def and_then_def split: prod.splits sum.splits)

lemma k2614B_setup_eq:
  "k2614B_setup ins str sfunc mfunc v_range i_range delay s =
     write_all ins
       [''smua.source.output = smua.OUTPUT_OFF'', ''smua.source.func = smua.OUTPUT_'' @ sfunc,
        ''display.smua.measure.func = display.MEASURE_DCAMPS'',
        ''smua.measure.rangev = '' @ str v_range, ''smua.measure.rangei = '' @ str i_range,
        ''smua.measure.delay = '' @ str delay] s"
  by (simp add: k2614B_setup_def and_then_def split: prod.splits sum.splits)

lemma write_all_trace:
  "write_all ins cmds s = (res, s') \<Longrightarrow>
     \<exists>evs n. trace s' = trace s @ evs \<and> n \<le> length cmds \<and>
       map call_of evs = map Wr (take n cmds) \<and> (res = Inr () \<longrightarrow> n = length cmds)"
proof (induction cmds arbitrary: s)
  case Nil
  then show ?case by auto
next
  case (Cons cmd cmds)
  obtain r1 s1 where w: "write_visa ins cmd s = (r1, s1)" by (cases "write_visa ins cmd s")
  show ?case
  proof (cases r1)
    case (Inl e)
    with w Cons.prems have "res = Inl e" "s' = s1" by simp_all
    moreover from write_visa_Inl [of ins cmd s e s1] w Inl obtain ve where
      "trace s1 = trace s @ [Write cmd (Some ve)]" by auto
    ultimately have "trace s' = trace s @ [Write cmd (Some ve)] \<and> 1 \<le> length (cmd # cmds) \<and>
       map call_of [Write cmd (Some ve)] = map Wr (take 1 (cmd # cmds)) \<and>
       (res = Inr () \<longrightarrow> 1 = length (cmd # cmds))"
      by simp
    then show ?thesis by blast
  next
    case (Inr u)
    with w Cons.prems have "write_all ins cmds s1 = (res, s')" by simp
    from Cons.IH [OF this] obtain evs n where
      ih: "trace s' = trace s1 @ evs" "n \<le> length cmds"
        "map call_of evs = map Wr (take n cmds)" "res = Inr () \<longrightarrow> n = length cmds"
      by blast
    from write_visa_Inr [of ins cmd s u s1] w Inr have "trace s1 = trace s @ [Write cmd None]"
      by simp
    with ih have "trace s' = trace s @ (Write cmd None # evs) \<and> Suc n \<le> length (cmd # cmds) \<and>
       map call_of (Write cmd None # evs) = map Wr (take (Suc n) (cmd # cmds)) \<and>
       (res = Inr () \<longrightarrow> Suc n = length (cmd # cmds))"
      by simp
    then show ?thesis by blast
  qed
qed

lemma write_all_calls:
  assumes "write_all ins cmds s = (res, s')"
  shows "\<exists>n \<le> length cmds. map call_of (issued s s') = map Wr (take n cmds) \<and>
           (res = Inr () \<longrightarrow> n = length cmds)"
  using write_all_trace [OF assms] by (auto simp: issued_def)

lemma write_all_nth:
  assumes "write_all ins cmds s = (res, s')" "i < length (issued s s')"
  shows "call_of (issued s s' ! i) = Wr (cmds ! i)"
proof -
  from write_all_calls [OF assms(1)] obtain n where
    n: "n \<le> length cmds" "map call_of (issued s s') = map Wr (take n cmds)"
    by blast
  from n(2) have "length (issued s s') = length (take n cmds)"
    by (metis length_map)
  with assms(2) n(1) have i: "i < n" by simp
  have "call_of (issued s s' ! i) = map call_of (issued s s') ! i"
    using assms(2) by simp
  also have "\<dots> = Wr (cmds ! i)"
    using i n by simp
  finally show ?thesis .
qed

text \<open>A setup that returns has written its six commands.\<close>

lemma k2400_setup_returns:
  assumes "k2400_setup ins str func v_range i_range delay s = (Inr (), s')"
  shows "map call_of (issued s s') =
     [Wr ''OUTP OFF'', Wr '':SOUR:CLE:AUTO OFF'', Wr ('':SOUR:FUNC '' @ func),
      Wr ('':SOUR:VOLT:RANG '' @ str v_range), Wr ('':SOUR:CURR:RANG '' @ str i_range),
      Wr ('':SOUR:DEL '' @ str delay)]"
  using write_all_calls [OF assms [unfolded k2400_setup_eq]] by auto

lemma k2614B_setup_returns:
  assumes "k2614B_setup ins str sfunc mfunc v_range i_range delay s = (Inr (), s')"
  shows "map call_of (issued s s') =
     [Wr ''smua.source.output = smua.OUTPUT_OFF'', Wr (''smua.source.func = smua.OUTPUT_'' @ sfunc),
      Wr ''display.smua.measure.func = display.MEASURE_DCAMPS'',
      Wr (''smua.measure.rangev = '' @ str v_range), Wr (''smua.measure.rangei = '' @ str i_range),
      Wr (''smua.measure.delay = '' @ str delay)]"
  using write_all_calls [OF assms [unfolded k2614B_setup_eq]] by auto

subsection \<open>Responses without a comma\<close>

lemma str_split_not_Nil: "str_split sep line \<noteq> []"
  by (induction line) (auto split: list.splits)

lemma str_split_single:
  "length (str_split sep line) < 2 \<Longrightarrow> str_split sep line = [line]"
proof (induction line)
  case Nil
  show ?case by simp
next
  case (Cons c cs)
  show ?case
  proof (cases "c = sep")
    case True
    with Cons.prems str_split_not_Nil [of sep cs] show ?thesis
      by (cases "str_split sep cs") simp_all
  next
    case False
    with Cons.prems str_split_not_Nil [of sep cs] obtain item where
      i: "str_split sep cs = [item]"
      by (cases "str_split sep cs") (auto split: list.splits)
    with Cons.IH have "item = cs" by simp
    with i False show ?thesis by simp
  qed
qed

lemma k2400_parse_single:
  assumes "length (str_split CHR '','' r) < 2"
  shows "k2400_parse float r = Inl (if float r = None then ValueError else IndexError)"
  using str_split_single [OF assms]
  by (auto simp: k2400_parse_def item1_def split: option.splits)

lemma parsed_list_all2:
  "map parse rs = map Inr xs \<Longrightarrow> list_all2 (\<lambda>r x. parse r = Inr x) rs xs"
proof (induction rs arbitrary: xs)
  case Nil
  then show ?case by simp
next
  case (Cons r rs)
  then show ?case by (cases xs) auto
qed

subsection \<open>Sweeping the resistor\<close>

lemma after_prefix_append: "after_prefix p (p @ arg) = Some arg"
  by (induction p) simp_all

lemma str_split_no_sep: "sep \<notin> set line \<Longrightarrow> str_split sep line = [line]"
  by (induction line) auto

lemma str_split_append:
  "sep \<notin> set a \<Longrightarrow> str_split sep (a @ sep # b) = a # str_split sep b"
  by (induction a) auto

lemma write_resistor:
  assumes "float (str v) = Some v"
  shows "write_visa (resistor_1k level_cmd respond float) (level_cmd @ str v) s =
     (Inr (), \<lparr>device = v, trace = trace s @ [Write (level_cmd @ str v) None]\<rparr>)"
  using assms by (simp add: write_visa_def resistor_1k_def after_prefix_append)

lemma write_resistor_ok: "fst (write_visa (resistor_1k level_cmd respond float) cmd s) = Inr ()"
  by (simp add: write_visa_def resistor_1k_def)

lemma query_resistor:
  "query (resistor_1k level_cmd respond float) cmd s =
     (Inr (respond (device s) (device s / 1000)),
      \<lparr>device = device s, trace = trace s @ [Query cmd (Inr (respond (device s) (device s / 1000)))]\<rparr>)"
  by (simp add: query_def resistor_1k_def)

lemma sweep_for_resistor:
  assumes "\<forall>v \<in> set vs. float (str v) = Some v \<and> parse (respond v (v / 1000)) = Inr (v / 1000)"
  shows "\<exists>s'. sweep_for (resistor_1k level_cmd respond float) (\<lambda>v. level_cmd @ str v) meas parse vs acc s
           = (None, acc @ map (\<lambda>v. v / 1000) vs, s')"
  using assms
proof (induction vs arbitrary: acc s)
  case Nil
  then show ?case by simp
next
  case (Cons v vs)
  from Cons.prems have f: "float (str v) = Some v" and p: "parse (respond v (v / 1000)) = Inr (v / 1000)"
    and rest: "\<forall>v \<in> set vs. float (str v) = Some v \<and> parse (respond v (v / 1000)) = Inr (v / 1000)"
    by simp_all
  let ?s2 = "\<lparr>device = v,
      trace = trace s @ [Write (level_cmd @ str v) None,
                         Query meas (Inr (respond v (v / 1000)))]\<rparr>"
  have step: "sweep_for (resistor_1k level_cmd respond float) (\<lambda>v. level_cmd @ str v) meas parse
        (v # vs) acc s =
      sweep_for (resistor_1k level_cmd respond float) (\<lambda>v. level_cmd @ str v) meas parse
        vs (acc @ [v / 1000]) ?s2"
    using f p by (simp add: write_resistor [of float str v] query_resistor)
  from Cons.IH [OF rest, of "acc @ [v / 1000]" ?s2] show ?case
    by (simp only: step) simp
qed

lemma write_all_resistor:
  "fst (write_all (resistor_1k level_cmd respond float) cmds s) = Inr ()"
proof (induction cmds arbitrary: s)
  case Nil
  show ?case by simp
next
  case (Cons cmd cmds)
  obtain r s1 where w: "write_visa (resistor_1k level_cmd respond float) cmd s = (r, s1)"
    by (cases "write_visa (resistor_1k level_cmd respond float) cmd s")
  with write_resistor_ok [of level_cmd respond float cmd s] have "r = Inr ()" by simp
  with w Cons.IH [of s1] show ?case by simp
qed

lemma k2400_parse_pair:
  assumes "float a = Some x" "float b = Some y" "CHR '','' \<notin> set a" "CHR '','' \<notin> set b"
  shows "k2400_parse float (a @ CHR '','' # b) = Inr y"
  using assms by (simp add: k2400_parse_def item1_def str_split_append str_split_no_sep)

lemma k2400_level_fun: "k2400_level str = (\<lambda>v. '':SOUR:VOLT '' @ str v)"
  by (simp add: k2400_level_def fun_eq_iff)

lemma k2614B_level_fun: "k2614B_level str = (\<lambda>v. ''smua.source.levelv = '' @ str v)"
  by (simp add: k2614B_level_def fun_eq_iff)

lemma k2400_sweep_resistor:
  assumes "\<forall>v \<in> set vs. float (str v) = Some v \<and> float (str (v / 1000)) = Some (v / 1000) \<and>
      CHR '','' \<notin> set (str v) \<and> CHR '','' \<notin> set (str (v / 1000))"
  shows "fst (k2400_iv_sweep (k2400_stub str float) str float vs s) = Inr (map (\<lambda>v. v / 1000) vs)"
proof -
  let ?ins = "resistor_1k '':SOUR:VOLT '' (\<lambda>v i. str v @ '','' @ str i) float"
  from assms have "\<forall>v \<in> set vs. float (str v) = Some v \<and>
      k2400_parse float (str v @ '','' @ str (v / 1000)) = Inr (v / 1000)"
    by (auto simp: k2400_parse_pair)
  from sweep_for_resistor [of vs float str "k2400_parse float" "\<lambda>v i. str v @ '','' @ str i",
      OF this, of "'':SOUR:VOLT ''" "'':MEAS:CURR?''" "[]" s]
  obtain s1 where lp: "k2400_for ?ins str float vs [] s = (None, map (\<lambda>v. v / 1000) vs, s1)"
    by (auto simp: k2400_for_eq k2400_level_fun)
  obtain r s2 where w: "write_visa ?ins ''OUTP OFF'' s1 = (r, s2)"
    by (cases "write_visa ?ins ''OUTP OFF'' s1")
  with write_resistor_ok [of "'':SOUR:VOLT ''" "\<lambda>v i. str v @ '','' @ str i" float "''OUTP OFF''" s1]
  have "r = Inr ()" by simp
  with lp w show ?thesis
    by (simp add: k2400_iv_sweep_def k2400_stub_def)
qed

lemma k2614B_sweep_resistor:
  assumes "\<forall>v \<in> set vs. float (str v) = Some v \<and> float (str (v / 1000)) = Some (v / 1000)"
  shows "fst (k2614B_iv_sweep (k2614B_stub str float) str float vs s) =
     Inr (map (\<lambda>v. v / 1000) vs)"
proof -
  let ?ins = "resistor_1k ''smua.source.levelv = '' (\<lambda>v i. str i) float"
  let ?on = "''smua.source.output = smua.OUTPUT_ON''"
  let ?off = "''smua.source.output = smua.OUTPUT_OFF''"
  obtain r0 s0 where w0: "write_visa ?ins ?on s = (r0, s0)"
    by (cases "write_visa ?ins ?on s")
  with write_resistor_ok [of "''smua.source.levelv = ''" "\<lambda>v i. str i" float ?on s]
  have r0: "r0 = Inr ()" by simp
  from assms have "\<forall>v \<in> set vs. float (str v) = Some v \<and>
      k2614B_parse float (str (v / 1000)) = Inr (v / 1000)"
    by (simp add: k2614B_parse_def)
  from sweep_for_resistor [of vs float str "k2614B_parse float" "\<lambda>v i. str i",
      OF this, of "''smua.source.levelv = ''" "''print(smua.measure.i())''" "[]" s0]
  obtain s1 where lp: "k2614B_for ?ins str float vs [] s0 = (None, map (\<lambda>v. v / 1000) vs, s1)"
    by (auto simp: k2614B_for_eq k2614B_level_fun)
  obtain r s2 where w: "write_visa ?ins ?off s1 = (r, s2)"
    by (cases "write_visa ?ins ?off s1")
  with write_resistor_ok [of "''smua.source.levelv = ''" "\<lambda>v i. str i" float ?off s1]
  have "r = Inr ()" by simp
  with w0 r0 lp w show ?thesis
    by (simp add: k2614B_iv_sweep_def k2614B_stub_def)
qed

lemma k2400_setup_resistor:
  "fst (k2400_setup (k2400_stub str float) str func v_range i_range delay s) = Inr ()"
  by (simp only: k2400_setup_eq k2400_stub_def write_all_resistor)

lemma k2614B_setup_resistor:
  "fst (k2614B_setup (k2614B_stub str float) str sfunc mfunc v_range i_range delay s) = Inr ()"
  by (simp only: k2614B_setup_eq k2614B_stub_def write_all_resistor)

subsection \<open>Concrete runs on the scripted instrument\<close>

lemmas run_defs =
  k2400_iv_sweep_def k2614B_iv_sweep_def write_visa_def query_def ask_def scripted_def script_def
  str_text_def float_whole_def digit_val_def item1_def issued_def and_then_def
  k2400_setup_def k2614B_setup_def

lemma run_2400_ok:
  "k2400_iv_sweep scripted str_text float_whole [''-1'', ''0''] (script [Inr ''-1,-3'', Inr ''0,0,7'']) =
    (Inr [- 3, 0],
  \<lparr>device = [],
     trace =
       [Write '':SOUR:VOLT -1'' None, Query '':MEAS:CURR?'' (Inr ''-1,-3''),
        Write '':SOUR:VOLT 0'' None, Query '':MEAS:CURR?'' (Inr ''0,0,7''),
        Write ''OUTP OFF'' None]\<rparr>)"
  by (simp add: run_defs)

lemma run_2614B_ok:
  "k2614B_iv_sweep scripted str_text float_whole [''-1'', ''0''] (script [Inr ''-3'', Inr ''0'']) =
    (Inr [- 3, 0],
  \<lparr>device = [],
     trace =
       [Write ''smua.source.output = smua.OUTPUT_ON'' None,
        Write ''smua.source.levelv = -1'' None,
        Query ''print(smua.measure.i())'' (Inr ''-3''),
        Write ''smua.source.levelv = 0'' None,
        Query ''print(smua.measure.i())'' (Inr ''0''),
        Write ''smua.source.output = smua.OUTPUT_OFF'' None]\<rparr>)"
  by (simp add: run_defs)

lemma run_2400_rev:
  "k2400_iv_sweep scripted str_text float_whole [''0'', ''-1'']
     (script [Inr ''-1,-3'', Inr ''0,0,7'']) =
    (Inr [- 3, 0],
     \<lparr>device = [],
      trace =
       [Write '':SOUR:VOLT 0'' None, Query '':MEAS:CURR?'' (Inr ''-1,-3''),
        Write '':SOUR:VOLT -1'' None, Query '':MEAS:CURR?'' (Inr ''0,0,7''),
        Write ''OUTP OFF'' None]\<rparr>)"
  by (simp add: run_defs)

lemma run_2614B_rev:
  "k2614B_iv_sweep scripted str_text float_whole [''0'', ''-1'']
     (script [Inr ''-3'', Inr ''0'']) =
    (Inr [- 3, 0],
     \<lparr>device = [],
      trace =
       [Write ''smua.source.output = smua.OUTPUT_ON'' None,
        Write ''smua.source.levelv = 0'' None,
        Query ''print(smua.measure.i())'' (Inr ''-3''),
        Write ''smua.source.levelv = -1'' None,
        Query ''print(smua.measure.i())'' (Inr ''0''),
        Write ''smua.source.output = smua.OUTPUT_OFF'' None]\<rparr>)"
  by (simp add: run_defs)

lemma run_2400_one:
  "k2400_iv_sweep scripted str_text float_whole [''1''] (script [Inr ''1,5'']) =
    (Inr [5],
     \<lparr>device = [],
      trace =
       [Write '':SOUR:VOLT 1'' None, Query '':MEAS:CURR?'' (Inr ''1,5''),
        Write ''OUTP OFF'' None]\<rparr>)"
  by (simp add: run_defs)

lemma run_2614B_bad:
  "k2614B_iv_sweep scripted str_text float_whole [''-1'', ''0'', ''2'']
     (script [Inr ''-3'', Inr ''abc'', Inr ''12'']) =
    (Inl ValueError,
     \<lparr>device = [Inr ''12''],
      trace =
       [Write ''smua.source.output = smua.OUTPUT_ON'' None,
        Write ''smua.source.levelv = -1'' None,
        Query ''print(smua.measure.i())'' (Inr ''-3''),
        Write ''smua.source.levelv = 0'' None,
        Query ''print(smua.measure.i())'' (Inr ''abc'')]\<rparr>)"
  by (simp add: run_defs)

lemma run_2400_bad:
  "k2400_iv_sweep scripted str_text float_whole [''-1'', ''0'', ''2'']
     (script [Inr ''-1,-3'', Inr ''0,abc'', Inr ''2,6'']) =
    (Inl ValueError,
     \<lparr>device = [Inr ''2,6''],
      trace =
       [Write '':SOUR:VOLT -1'' None, Query '':MEAS:CURR?'' (Inr ''-1,-3''),
        Write '':SOUR:VOLT 0'' None, Query '':MEAS:CURR?'' (Inr ''0,abc'')]\<rparr>)"
  by (simp add: run_defs)

lemma run_2614B_timeout:
  "k2614B_iv_sweep scripted str_text float_whole [''-1'', ''0'', ''2'']
     (script [Inr ''-3'', Inl TimeoutError, Inr ''12'']) =
    (Inl (VisaError TimeoutError),
     \<lparr>device = [Inr ''12''],
      trace =
       [Write ''smua.source.output = smua.OUTPUT_ON'' None,
        Write ''smua.source.levelv = -1'' None,
        Query ''print(smua.measure.i())'' (Inr ''-3''),
        Write ''smua.source.levelv = 0'' None,
        Query ''print(smua.measure.i())'' (Inl TimeoutError)]\<rparr>)"
  by (simp add: run_defs)

lemma run_2400_timeout:
  "k2400_iv_sweep scripted str_text float_whole [''-1'', ''0'', ''2'']
     (script [Inr ''-1,-3'', Inl TimeoutError, Inr ''2,6'']) =
    (Inl (VisaError TimeoutError),
     \<lparr>device = [Inr ''2,6''],
      trace =
       [Write '':SOUR:VOLT -1'' None, Query '':MEAS:CURR?'' (Inr ''-1,-3''),
        Write '':SOUR:VOLT 0'' None, Query '':MEAS:CURR?'' (Inl TimeoutError)]\<rparr>)"
  by (simp add: run_defs)

lemma run_2400_short_number:
  "k2400_iv_sweep scripted str_text float_whole [''1''] (script [Inr ''5'']) =
    (Inl IndexError,
     \<lparr>device = [],
      trace = [Write '':SOUR:VOLT 1'' None, Query '':MEAS:CURR?'' (Inr ''5'')]\<rparr>)"
  by (simp add: run_defs)

lemma run_2400_short_text:
  "k2400_iv_sweep scripted str_text float_whole [''1''] (script [Inr ''abc'']) =
    (Inl ValueError,
     \<lparr>device = [],
      trace = [Write '':SOUR:VOLT 1'' None, Query '':MEAS:CURR?'' (Inr ''abc'')]\<rparr>)"
  by (simp add: run_defs)

lemma issued_script: "issued (script rs) s' = trace s'"
  by (simp add: issued_def script_def)

lemma run_2614B_setup:
  "k2614B_setup scripted str_text ''DCAMPS'' ''DCVOLTS'' ''3'' ''0.2'' ''1'' (script []) =
    (Inr (),
     \<lparr>device = [],
      trace =
       [Write ''smua.source.output = smua.OUTPUT_OFF'' None,
        Write ''smua.source.func = smua.OUTPUT_DCAMPS'' None,
        Write ''display.smua.measure.func = display.MEASURE_DCAMPS'' None,
        Write ''smua.measure.rangev = 3'' None,
        Write ''smua.measure.rangei = 0.2'' None,
        Write ''smua.measure.delay = 1'' None]\<rparr>)"
  by (simp add: run_defs)

lemma run_2614B_empty:
  "k2614B_iv_sweep scripted str_text float_whole [] (script []) =
    (Inr [],
     \<lparr>device = [],
      trace =
       [Write ''smua.source.output = smua.OUTPUT_ON'' None,
        Write ''smua.source.output = smua.OUTPUT_OFF'' None]\<rparr>)"
  by (simp add: run_defs)

lemma run_2400_empty:
  "k2400_iv_sweep scripted str_text float_whole [] (script []) =
    (Inr [], \<lparr>device = [], trace = [Write ''OUTP OFF'' None]\<rparr>)"
  by (simp add: run_defs)

lemma dec_round_trip:
  "\<forall>x \<in> set [- 1, - 1 / 2, 0, 1 / 2, 1].
        float_dec (str_dec x) = Some x \<and> float_dec (str_dec (x / 1000)) = Some (x / 1000) \<and>
        CHR '','' \<notin> set (str_dec x) \<and> CHR '','' \<notin> set (str_dec (x / 1000))"
  by (simp add: float_dec_def str_dec_def dec_val_def digit_val_def)

section \<open>The claims\<close>

text \<open>
  C1. On a run of \<open>k2400_iv_sweep\<close> or \<open>k2614B_iv_sweep\<close> in which no write or query
  fails and every query response parses, the procedure returns a result, and the result
  has exactly as many elements as the input has set-points. A response parses when the
  procedure's own reading of it succeeds: for the 2614B \<^verbatim>\<open>float\<close> accepts the text, for
  the 2400 \<^verbatim>\<open>float\<close> accepts every comma-separated field and there are at least two.
  The input may be empty as well.
\<close>

theorem sweep_result_length:
  "(k2400_iv_sweep ins str float vs s = (res, s') \<and>
      (\<forall>ev \<in> set (issued s s'). succeeded ev) \<and>
      (\<forall>r \<in> set (responses (issued s s')).
          \<exists>items. float_items float (str_split CHR '','' r) = Inr items \<and> 1 < length items)
     \<longrightarrow> (\<exists>cs. res = Inr cs \<and> length cs = length vs)) \<and>
   (k2614B_iv_sweep ins2 str float vs s2 = (res2, s2') \<and>
      (\<forall>ev \<in> set (issued s2 s2'). succeeded ev) \<and>
      (\<forall>r \<in> set (responses (issued s2 s2')). float r \<noteq> None)
     \<longrightarrow> (\<exists>cs. res2 = Inr cs \<and> length cs = length vs))"
proof (intro conjI impI)
  assume a: "k2400_iv_sweep ins str float vs s = (res, s') \<and>
      (\<forall>ev \<in> set (issued s s'). succeeded ev) \<and>
      (\<forall>r \<in> set (responses (issued s s')).
          \<exists>items. float_items float (str_split CHR '','' r) = Inr items \<and> 1 < length items)"
  then have run: "k2400_iv_sweep ins str float vs s = (res, s')"
    and ok: "\<forall>ev \<in> set (issued s s'). succeeded ev"
    and parses: "\<forall>r \<in> set (responses (issued s s')). \<exists>x. k2400_parse float r = Inr x"
    by (simp_all add: k2400_parse_Inr)
  from run show "\<exists>cs. res = Inr cs \<and> length cs = length vs"
  proof (cases rule: k2400_iv_sweep_cases)
    case (loop_fails e pre v post rs xs tail)
    from ok parses loop_fails(7) have "\<forall>ev \<in> set tail. succeeded ev"
      and "\<forall>r \<in> set (responses tail). \<exists>x. k2400_parse float r = Inr x"
      by (simp_all add: responses_append)
    with step_fails_not_clean [OF loop_fails(8)] show ?thesis by blast
  next
    case (disable_fails ve rs xs)
    with ok show ?thesis by auto
  next
    case (returns rs xs)
    then show ?thesis by simp
  qed
next
  assume a: "k2614B_iv_sweep ins2 str float vs s2 = (res2, s2') \<and>
      (\<forall>ev \<in> set (issued s2 s2'). succeeded ev) \<and>
      (\<forall>r \<in> set (responses (issued s2 s2')). float r \<noteq> None)"
  then have run: "k2614B_iv_sweep ins2 str float vs s2 = (res2, s2')"
    and ok: "\<forall>ev \<in> set (issued s2 s2'). succeeded ev"
    and parses: "\<forall>r \<in> set (responses (issued s2 s2')). \<exists>x. k2614B_parse float r = Inr x"
    by (auto simp: k2614B_parse_Inr)
  from run show "\<exists>cs. res2 = Inr cs \<and> length cs = length vs"
  proof (cases rule: k2614B_iv_sweep_cases)
    case (enable_fails ve)
    with ok show ?thesis by auto
  next
    case (loop_fails e pre v post rs xs tail s1)
    from ok parses loop_fails(8) have "\<forall>ev \<in> set tail. succeeded ev"
      and "\<forall>r \<in> set (responses tail). \<exists>x. k2614B_parse float r = Inr x"
      by (simp_all add: responses_append)
    with step_fails_not_clean [OF loop_fails(10)] show ?thesis by blast
  next
    case (disable_fails ve rs xs)
    with ok show ?thesis by auto
  next
    case (returns rs xs)
    then show ?thesis by simp
  qed
qed

theorem sweep_result_length_witness:
  "list_all succeeded
     (issued (script [Inr ''-1,-3'', Inr ''0,0,7''])
        (snd (k2400_iv_sweep scripted str_text float_whole [''-1'', ''0'']
           (script [Inr ''-1,-3'', Inr ''0,0,7''])))) \<and>
   responses
     (issued (script [Inr ''-1,-3'', Inr ''0,0,7''])
        (snd (k2400_iv_sweep scripted str_text float_whole [''-1'', ''0'']
           (script [Inr ''-1,-3'', Inr ''0,0,7''])))) = [''-1,-3'', ''0,0,7''] \<and>
   float_items float_whole (str_split CHR '','' ''-1,-3'') = Inr [- 1, - 3] \<and>
   float_items float_whole (str_split CHR '','' ''0,0,7'') = Inr [0, 0, 7] \<and>
   (\<exists>cs. fst (k2400_iv_sweep scripted str_text float_whole [''-1'', ''0'']
            (script [Inr ''-1,-3'', Inr ''0,0,7''])) = Inr cs \<and>
         length cs = length [''-1'', ''0'']) \<and>
   list_all succeeded
     (issued (script [Inr ''-3'', Inr ''0''])
        (snd (k2614B_iv_sweep scripted str_text float_whole [''-1'', ''0'']
           (script [Inr ''-3'', Inr ''0''])))) \<and>
   responses
     (issued (script [Inr ''-3'', Inr ''0''])
        (snd (k2614B_iv_sweep scripted str_text float_whole [''-1'', ''0'']
           (script [Inr ''-3'', Inr ''0''])))) = [''-3'', ''0''] \<and>
   float_whole ''-3'' = Some (- 3) \<and> float_whole ''0'' = Some 0 \<and>
   (\<exists>cs. fst (k2614B_iv_sweep scripted str_text float_whole [''-1'', ''0'']
            (script [Inr ''-3'', Inr ''0''])) = Inr cs \<and>
         length cs = length [''-1'', ''0''])"
proof -
  let ?s = "script [Inr ''-1,-3'', Inr ''0,0,7'']"
  let ?run = "k2400_iv_sweep scripted str_text float_whole [''-1'', ''0''] ?s"
  let ?s2 = "script [Inr ''-3'', Inr ''0'']"
  let ?run2 = "k2614B_iv_sweep scripted str_text float_whole [''-1'', ''0''] ?s2"
  have i1: "issued ?s (snd ?run) =
      [Write '':SOUR:VOLT -1'' None, Query '':MEAS:CURR?'' (Inr ''-1,-3''),
       Write '':SOUR:VOLT 0'' None, Query '':MEAS:CURR?'' (Inr ''0,0,7''),
       Write ''OUTP OFF'' None]"
    by (simp add: run_2400_ok) (simp add: issued_def script_def)
  have i2: "issued ?s2 (snd ?run2) =
      [Write ''smua.source.output = smua.OUTPUT_ON'' None,
       Write ''smua.source.levelv = -1'' None,
       Query ''print(smua.measure.i())'' (Inr ''-3''),
       Write ''smua.source.levelv = 0'' None,
       Query ''print(smua.measure.i())'' (Inr ''0''),
       Write ''smua.source.output = smua.OUTPUT_OFF'' None]"
    by (simp add: run_2614B_ok) (simp add: issued_def script_def)
  have f1: "float_items float_whole (str_split CHR '','' ''-1,-3'') = Inr [- 1, - 3]"
    and f2: "float_items float_whole (str_split CHR '','' ''0,0,7'') = Inr [0, 0, 7]"
    and f3: "float_whole ''-3'' = Some (- 3)" and f4: "float_whole ''0'' = Some 0"
    by (simp_all add: float_whole_def digit_val_def)
  have h1: "\<forall>ev \<in> set (issued ?s (snd ?run)). succeeded ev"
    by (simp add: i1)
  have h2: "\<forall>r \<in> set (responses (issued ?s (snd ?run))).
      \<exists>items. float_items float_whole (str_split CHR '','' r) = Inr items \<and> 1 < length items"
    using f1 f2 by (simp add: i1)
  have h3: "\<forall>ev \<in> set (issued ?s2 (snd ?run2)). succeeded ev"
    by (simp add: i2)
  have h4: "\<forall>r \<in> set (responses (issued ?s2 (snd ?run2))). float_whole r \<noteq> None"
    using f3 f4 by (simp add: i2)
  have c1: "\<exists>cs. fst ?run = Inr cs \<and> length cs = length [''-1'', ''0'']"
    using sweep_result_length
      [THEN conjunct1, of scripted str_text float_whole "[''-1'', ''0'']" ?s "fst ?run" "snd ?run"]
      h1 h2 by simp
  have c2: "\<exists>cs. fst ?run2 = Inr cs \<and> length cs = length [''-1'', ''0'']"
    using sweep_result_length
      [THEN conjunct2, of scripted str_text float_whole "[''-1'', ''0'']" ?s2 "fst ?run2"
         "snd ?run2"]
      h3 h4 by simp
  show ?thesis
    using c1 c2 f1 f2 f3 f4 by (simp add: i1 i2)
qed

text \<open>
  C2 as stated fails for \<open>k2400_iv_sweep\<close>: on the one set-point \<^verbatim>\<open>'1'\<close> it returns
  after exactly three calls, the source-level write, the query and the disable write.
  No call enables output.
\<close>

theorem k2400_no_enable_counterexample:
  "fst (k2400_iv_sweep scripted str_text float_whole [''1''] (script [Inr ''1,5''])) = Inr [5] \<and>
   map call_of (issued (script [Inr ''1,5''])
      (snd (k2400_iv_sweep scripted str_text float_whole [''1''] (script [Inr ''1,5''])))) =
     [Wr '':SOUR:VOLT 1'', Qu '':MEAS:CURR?'', Wr ''OUTP OFF'']"
  by (simp add: run_2400_one) (simp add: issued_def script_def)

text \<open>
  C2, as amended. On a sweep that returns, \<open>k2614B_iv_sweep\<close> has first written the
  output-enable command, then for each set-point in input order one source-level
  command followed by one measurement query, and last the output-disable command.
  \<open>k2400_iv_sweep\<close> has made the same calls except the first: it writes no
  output-enable command, its first call is the source-level write of the first
  set-point.
\<close>

theorem sweep_call_sequence:
  "(k2614B_iv_sweep ins str float vs s = (Inr cs, s') \<longrightarrow>
      map call_of (issued s s') =
        Wr ''smua.source.output = smua.OUTPUT_ON'' #
        concat (map (\<lambda>v. [Wr (''smua.source.levelv = '' @ str v),
                           Qu ''print(smua.measure.i())'']) vs) @
        [Wr ''smua.source.output = smua.OUTPUT_OFF'']) \<and>
   (k2400_iv_sweep ins2 str float vs s2 = (Inr cs2, s2') \<longrightarrow>
      map call_of (issued s2 s2') =
        concat (map (\<lambda>v. [Wr ('':SOUR:VOLT '' @ str v), Qu '':MEAS:CURR?'']) vs) @
        [Wr ''OUTP OFF''])"
proof (intro conjI impI)
  assume "k2614B_iv_sweep ins str float vs s = (Inr cs, s')"
  from k2614B_returns [OF this] obtain rs where "length rs = length vs"
    "issued s s' = Write ''smua.source.output = smua.OUTPUT_ON'' None #
       steps_ok (k2614B_level str) ''print(smua.measure.i())'' (zip vs rs) @
       [Write ''smua.source.output = smua.OUTPUT_OFF'' None]"
    by blast
  then show "map call_of (issued s s') =
        Wr ''smua.source.output = smua.OUTPUT_ON'' #
        concat (map (\<lambda>v. [Wr (''smua.source.levelv = '' @ str v),
                           Qu ''print(smua.measure.i())'']) vs) @
        [Wr ''smua.source.output = smua.OUTPUT_OFF'']"
    by (simp add: calls_steps_ok k2614B_level_def)
next
  assume "k2400_iv_sweep ins2 str float vs s2 = (Inr cs2, s2')"
  from k2400_returns [OF this] obtain rs where "length rs = length vs"
    "issued s2 s2' = steps_ok (k2400_level str) '':MEAS:CURR?'' (zip vs rs) @
       [Write ''OUTP OFF'' None]"
    by blast
  then show "map call_of (issued s2 s2') =
        concat (map (\<lambda>v. [Wr ('':SOUR:VOLT '' @ str v), Qu '':MEAS:CURR?'']) vs) @
        [Wr ''OUTP OFF'']"
    by (simp add: calls_steps_ok k2400_level_def)
qed

theorem sweep_call_sequence_witness:
  "k2614B_iv_sweep scripted str_text float_whole [''-1'', ''0''] (script [Inr ''-3'', Inr ''0'']) =
     (Inr [- 3, 0],
      \<lparr>device = [],
       trace =
        [Write ''smua.source.output = smua.OUTPUT_ON'' None,
         Write ''smua.source.levelv = -1'' None,
         Query ''print(smua.measure.i())'' (Inr ''-3''),
         Write ''smua.source.levelv = 0'' None,
         Query ''print(smua.measure.i())'' (Inr ''0''),
         Write ''smua.source.output = smua.OUTPUT_OFF'' None]\<rparr>) \<and>
   map call_of (issued (script [Inr ''-3'', Inr ''0''])
      (snd (k2614B_iv_sweep scripted str_text float_whole [''-1'', ''0'']
         (script [Inr ''-3'', Inr ''0''])))) =
     [Wr ''smua.source.output = smua.OUTPUT_ON'',
      Wr ''smua.source.levelv = -1'', Qu ''print(smua.measure.i())'',
      Wr ''smua.source.levelv = 0'', Qu ''print(smua.measure.i())'',
      Wr ''smua.source.output = smua.OUTPUT_OFF''] \<and>
   k2400_iv_sweep scripted str_text float_whole [''-1'', ''0'']
       (script [Inr ''-1,-3'', Inr ''0,0,7'']) =
     (Inr [- 3, 0],
      \<lparr>device = [],
       trace =
        [Write '':SOUR:VOLT -1'' None, Query '':MEAS:CURR?'' (Inr ''-1,-3''),
         Write '':SOUR:VOLT 0'' None, Query '':MEAS:CURR?'' (Inr ''0,0,7''),
         Write ''OUTP OFF'' None]\<rparr>) \<and>
   map call_of (issued (script [Inr ''-1,-3'', Inr ''0,0,7''])
      (snd (k2400_iv_sweep scripted str_text float_whole [''-1'', ''0'']
         (script [Inr ''-1,-3'', Inr ''0,0,7''])))) =
     [Wr '':SOUR:VOLT -1'', Qu '':MEAS:CURR?'',
      Wr '':SOUR:VOLT 0'', Qu '':MEAS:CURR?'', Wr ''OUTP OFF'']"
proof -
  let ?s = "script [Inr ''-3'', Inr ''0'']"
  let ?run = "k2614B_iv_sweep scripted str_text float_whole [''-1'', ''0''] ?s"
  let ?s2 = "script [Inr ''-1,-3'', Inr ''0,0,7'']"
  let ?run2 = "k2400_iv_sweep scripted str_text float_whole [''-1'', ''0''] ?s2"
  have r: "?run = (Inr [- 3, 0], snd ?run)"
    by (simp add: run_2614B_ok)
  have r2: "?run2 = (Inr [- 3, 0], snd ?run2)"
    by (simp add: run_2400_ok)
  note c = sweep_call_sequence [THEN conjunct1, THEN mp, OF r]
  note c2 = sweep_call_sequence [THEN conjunct2, THEN mp, OF r2]
  from c c2 show ?thesis
    by (simp add: str_text_def run_2614B_ok run_2400_ok)
qed

text \<open>
  C3 at \<^verbatim>\<open>k2614B_setup('DCAMPS', 'DCVOLTS', '3', '0.2', '1')\<close>: the six commands
  written. The value of \<open>mfunc\<close> appears in none of them; the third command selects
  \<^verbatim>\<open>MEASURE_DCAMPS\<close> whatever was passed.
\<close>

theorem k2614B_setup_mfunc_not_written:
  "map call_of (issued (script [])
      (snd (k2614B_setup scripted str_text ''DCAMPS'' ''DCVOLTS'' ''3'' ''0.2'' ''1'' (script [])))) =
     [Wr ''smua.source.output = smua.OUTPUT_OFF'',
      Wr ''smua.source.func = smua.OUTPUT_DCAMPS'',
      Wr ''display.smua.measure.func = display.MEASURE_DCAMPS'',
      Wr ''smua.measure.rangev = 3'',
      Wr ''smua.measure.rangei = 0.2'',
      Wr ''smua.measure.delay = 1'']"
  by (simp add: run_2614B_setup issued_script)

text \<open>
  C4. On a sweep that returns, the result has one element per set-point, and element
  \<open>i\<close> is the value read from the response of the query that directly follows the
  write of set-point \<open>i\<close> as the source level: \<^verbatim>\<open>float\<close> of the response for the
  2614B, field 1 of the converted comma-separated fields for the 2400. On the reversed
  input, the source level written at step \<open>i\<close> is set-point \<open>n - 1 - i\<close> of the
  original input.
\<close>

theorem sweep_result_order:
  "(k2614B_iv_sweep ins str float vs s = (Inr cs, s') \<longrightarrow>
      length cs = length vs \<and>
      (\<forall>i < length vs.
         issued s s' ! (2 * i + 1) = Write (''smua.source.levelv = '' @ str (vs ! i)) None \<and>
         (\<exists>r. issued s s' ! (2 * i + 2) = Query ''print(smua.measure.i())'' (Inr r) \<and>
              float r = Some (cs ! i)))) \<and>
   (k2614B_iv_sweep ins str float (rev vs) s = (Inr rcs, rs') \<longrightarrow>
      (\<forall>i < length vs.
         issued s rs' ! (2 * i + 1) =
           Write (''smua.source.levelv = '' @ str (vs ! (length vs - 1 - i))) None)) \<and>
   (k2400_iv_sweep ins2 str float vs s2 = (Inr cs2, s2') \<longrightarrow>
      length cs2 = length vs \<and>
      (\<forall>i < length vs.
         issued s2 s2' ! (2 * i) = Write ('':SOUR:VOLT '' @ str (vs ! i)) None \<and>
         (\<exists>r items. issued s2 s2' ! (2 * i + 1) = Query '':MEAS:CURR?'' (Inr r) \<and>
              float_items float (str_split CHR '','' r) = Inr items \<and> 1 < length items \<and>
              cs2 ! i = items ! 1))) \<and>
   (k2400_iv_sweep ins2 str float (rev vs) s2 = (Inr rcs2, rs2') \<longrightarrow>
      (\<forall>i < length vs.
         issued s2 rs2' ! (2 * i) =
           Write ('':SOUR:VOLT '' @ str (vs ! (length vs - 1 - i))) None))"
proof -
  have a: "length cs = length vs \<and>
      (\<forall>i < length vs.
         issued s s' ! (2 * i + 1) = Write (''smua.source.levelv = '' @ str (vs ! i)) None \<and>
         (\<exists>r. issued s s' ! (2 * i + 2) = Query ''print(smua.measure.i())'' (Inr r) \<and>
              float r = Some (cs ! i)))"
    if run: "k2614B_iv_sweep ins str float vs s = (Inr cs, s')" for vs cs s'
  proof -
    from k2614B_returns [OF run] obtain rs where
      d: "length rs = length vs" "length cs = length vs"
        "map (k2614B_parse float) rs = map Inr cs"
        "issued s s' = Write ''smua.source.output = smua.OUTPUT_ON'' None #
           steps_ok (k2614B_level str) ''print(smua.measure.i())'' (zip vs rs) @
           [Write ''smua.source.output = smua.OUTPUT_OFF'' None]"
      by blast
    have "issued s s' ! (2 * i + 1) = Write (''smua.source.levelv = '' @ str (vs ! i)) None \<and>
         (\<exists>r. issued s s' ! (2 * i + 2) = Query ''print(smua.measure.i())'' (Inr r) \<and>
              float r = Some (cs ! i))" if i: "i < length vs" for i
    proof -
      from parsed_nth [OF d(3)] i d(1) have "float (rs ! i) = Some (cs ! i)"
        by (simp add: k2614B_parse_Inr)
      then show ?thesis
        using nth_steps_ok_zip [OF d(1) i, of "k2614B_level str" "''print(smua.measure.i())''"]
        by (simp add: d(4) k2614B_level_def)
    qed
    with d(2) show ?thesis by blast
  qed
  have b: "length cs2 = length vs \<and>
      (\<forall>i < length vs.
         issued s2 s2' ! (2 * i) = Write ('':SOUR:VOLT '' @ str (vs ! i)) None \<and>
         (\<exists>r items. issued s2 s2' ! (2 * i + 1) = Query '':MEAS:CURR?'' (Inr r) \<and>
              float_items float (str_split CHR '','' r) = Inr items \<and> 1 < length items \<and>
              cs2 ! i = items ! 1))"
    if run: "k2400_iv_sweep ins2 str float vs s2 = (Inr cs2, s2')" for vs cs2 s2'
  proof -
    from k2400_returns [OF run] obtain rs where
      d: "length rs = length vs" "length cs2 = length vs"
        "map (k2400_parse float) rs = map Inr cs2"
        "issued s2 s2' = steps_ok (k2400_level str) '':MEAS:CURR?'' (zip vs rs) @
           [Write ''OUTP OFF'' None]"
      by blast
    have "issued s2 s2' ! (2 * i) = Write ('':SOUR:VOLT '' @ str (vs ! i)) None \<and>
         (\<exists>r items. issued s2 s2' ! (2 * i + 1) = Query '':MEAS:CURR?'' (Inr r) \<and>
              float_items float (str_split CHR '','' r) = Inr items \<and> 1 < length items \<and>
              cs2 ! i = items ! 1)" if i: "i < length vs" for i
    proof -
      from parsed_nth [OF d(3)] i d(1) have "k2400_parse float (rs ! i) = Inr (cs2 ! i)"
        by simp
      then obtain items where "float_items float (str_split CHR '','' (rs ! i)) = Inr items"
        "1 < length items" "cs2 ! i = items ! 1"
        by (auto simp: k2400_parse_Inr)
      then show ?thesis
        using nth_steps_ok_zip [OF d(1) i, of "k2400_level str" "'':MEAS:CURR?''"]
        by (simp add: d(4) k2400_level_def)
    qed
    with d(2) show ?thesis by blast
  qed
  have c: "\<forall>i < length vs. issued s rs' ! (2 * i + 1) =
           Write (''smua.source.levelv = '' @ str (vs ! (length vs - 1 - i))) None"
    if run: "k2614B_iv_sweep ins str float (rev vs) s = (Inr rcs, rs')"
    using a [OF run] by (simp add: rev_nth)
  have d: "\<forall>i < length vs. issued s2 rs2' ! (2 * i) =
           Write ('':SOUR:VOLT '' @ str (vs ! (length vs - 1 - i))) None"
    if run: "k2400_iv_sweep ins2 str float (rev vs) s2 = (Inr rcs2, rs2')"
    using b [OF run] by (simp add: rev_nth)
  from a b c d show ?thesis by blast
qed

theorem sweep_result_order_witness:
  "k2614B_iv_sweep scripted str_text float_whole [''-1'', ''0''] (script [Inr ''-3'', Inr ''0'']) =
     (Inr [- 3, 0],
      \<lparr>device = [],
       trace =
        [Write ''smua.source.output = smua.OUTPUT_ON'' None,
         Write ''smua.source.levelv = -1'' None,
         Query ''print(smua.measure.i())'' (Inr ''-3''),
         Write ''smua.source.levelv = 0'' None,
         Query ''print(smua.measure.i())'' (Inr ''0''),
         Write ''smua.source.output = smua.OUTPUT_OFF'' None]\<rparr>) \<and>
   (\<exists>r. issued (script [Inr ''-3'', Inr ''0''])
          (snd (k2614B_iv_sweep scripted str_text float_whole [''-1'', ''0'']
             (script [Inr ''-3'', Inr ''0'']))) ! 4 = Query ''print(smua.measure.i())'' (Inr r) \<and>
        float_whole r = Some ([- 3, 0] ! 1)) \<and>
   fst (k2614B_iv_sweep scripted str_text float_whole (rev [''-1'', ''0''])
          (script [Inr ''-3'', Inr ''0''])) = Inr [- 3, 0] \<and>
   issued (script [Inr ''-3'', Inr ''0''])
     (snd (k2614B_iv_sweep scripted str_text float_whole (rev [''-1'', ''0''])
        (script [Inr ''-3'', Inr ''0'']))) ! 1 = Write ''smua.source.levelv = 0'' None \<and>
   k2400_iv_sweep scripted str_text float_whole [''-1'', ''0'']
       (script [Inr ''-1,-3'', Inr ''0,0,7'']) =
     (Inr [- 3, 0],
      \<lparr>device = [],
       trace =
        [Write '':SOUR:VOLT -1'' None, Query '':MEAS:CURR?'' (Inr ''-1,-3''),
         Write '':SOUR:VOLT 0'' None, Query '':MEAS:CURR?'' (Inr ''0,0,7''),
         Write ''OUTP OFF'' None]\<rparr>) \<and>
   (\<exists>r items. issued (script [Inr ''-1,-3'', Inr ''0,0,7''])
          (snd (k2400_iv_sweep scripted str_text float_whole [''-1'', ''0'']
             (script [Inr ''-1,-3'', Inr ''0,0,7'']))) ! 3 = Query '':MEAS:CURR?'' (Inr r) \<and>
        float_items float_whole (str_split CHR '','' r) = Inr items \<and> 1 < length items \<and>
        [- 3, 0] ! 1 = items ! 1) \<and>
   fst (k2400_iv_sweep scripted str_text float_whole (rev [''-1'', ''0''])
          (script [Inr ''-1,-3'', Inr ''0,0,7''])) = Inr [- 3, 0] \<and>
   issued (script [Inr ''-1,-3'', Inr ''0,0,7''])
     (snd (k2400_iv_sweep scripted str_text float_whole (rev [''-1'', ''0''])
        (script [Inr ''-1,-3'', Inr ''0,0,7'']))) ! 0 = Write '':SOUR:VOLT 0'' None"
proof -
  let ?s = "script [Inr ''-3'', Inr ''0'']"
  let ?run = "k2614B_iv_sweep scripted str_text float_whole [''-1'', ''0''] ?s"
  let ?rev = "k2614B_iv_sweep scripted str_text float_whole (rev [''-1'', ''0'']) ?s"
  let ?s2 = "script [Inr ''-1,-3'', Inr ''0,0,7'']"
  let ?run2 = "k2400_iv_sweep scripted str_text float_whole [''-1'', ''0''] ?s2"
  let ?rev2 = "k2400_iv_sweep scripted str_text float_whole (rev [''-1'', ''0'']) ?s2"
  have r: "?run = (Inr [- 3, 0], snd ?run)"
    by (simp add: run_2614B_ok)
  have rr: "?rev = (Inr [- 3, 0], snd ?rev)"
    by (simp add: run_2614B_rev)
  have r2: "?run2 = (Inr [- 3, 0], snd ?run2)"
    by (simp add: run_2400_ok)
  have rr2: "?rev2 = (Inr [- 3, 0], snd ?rev2)"
    by (simp add: run_2400_rev)
  note c = sweep_result_order [THEN conjunct1, THEN mp, OF r, THEN conjunct2, THEN spec, of 1]
  note cr = sweep_result_order
    [THEN conjunct2, THEN conjunct1, THEN mp, OF rr, THEN spec, of 0]
  note c2 = sweep_result_order
    [THEN conjunct2, THEN conjunct2, THEN conjunct1, THEN mp, OF r2, THEN conjunct2,
     THEN spec, of 1]
  note cr2 = sweep_result_order
    [THEN conjunct2, THEN conjunct2, THEN conjunct2, THEN mp, OF rr2, THEN spec, of 0]
  from c cr c2 cr2 show ?thesis
    by (simp add: str_text_def run_2614B_ok run_2400_ok run_2614B_rev run_2400_rev)
qed

text \<open>
  C5. Whenever a query of a sweep returns a response that does not convert (for the
  2614B \<^verbatim>\<open>float\<close> rejects the text, for the 2400 \<^verbatim>\<open>float\<close> rejects one of its
  comma-separated fields), the sweep fails with \<^verbatim>\<open>ValueError\<close> at that step: the
  query is the last call made, the loop raised it, and \<^verbatim>\<open>currents\<close> at that moment
  holds fewer values than there are set-points, exactly the values read from the
  responses of the queries before it. Nothing was appended for the bad response.
\<close>

theorem sweep_parse_error:
  "(k2614B_iv_sweep ins str float vs s = (res, s') \<and>
      Query c (Inr r) \<in> set (issued s s') \<and> float r = None \<longrightarrow>
      res = Inl ValueError \<and> last (issued s s') = Query c (Inr r) \<and>
      (\<exists>s1 currents.
          write_visa ins ''smua.source.output = smua.OUTPUT_ON'' s = (Inr (), s1) \<and>
          k2614B_for ins str float vs [] s1 = (Some ValueError, currents, s') \<and>
          length currents < length vs \<and>
          map float (responses (butlast (issued s s'))) = map Some currents)) \<and>
   (k2400_iv_sweep ins2 str float vs s2 = (res2, s2') \<and>
      Query c2 (Inr r2) \<in> set (issued s2 s2') \<and>
      (\<exists>item \<in> set (str_split CHR '','' r2). float item = None) \<longrightarrow>
      res2 = Inl ValueError \<and> last (issued s2 s2') = Query c2 (Inr r2) \<and>
      (\<exists>currents.
          k2400_for ins2 str float vs [] s2 = (Some ValueError, currents, s2') \<and>
          length currents < length vs \<and>
          map (k2400_parse float) (responses (butlast (issued s2 s2'))) = map Inr currents))"
proof (rule conjI; rule impI)
  let ?L = "k2614B_level str" and ?M = "''print(smua.measure.i())''"
    and ?P = "k2614B_parse float"
  let ?on = "Write ''smua.source.output = smua.OUTPUT_ON'' None"
  assume a: "k2614B_iv_sweep ins str float vs s = (res, s') \<and>
      Query c (Inr r) \<in> set (issued s s') \<and> float r = None"
  then have run: "k2614B_iv_sweep ins str float vs s = (res, s')"
    and mem: "Query c (Inr r) \<in> set (issued s s')"
    and bad: "?P r = Inl ValueError"
    by (simp_all add: k2614B_parse_Inl)
  from run show "res = Inl ValueError \<and> last (issued s s') = Query c (Inr r) \<and>
      (\<exists>s1 currents.
          write_visa ins ''smua.source.output = smua.OUTPUT_ON'' s = (Inr (), s1) \<and>
          k2614B_for ins str float vs [] s1 = (Some ValueError, currents, s') \<and>
          length currents < length vs \<and>
          map float (responses (butlast (issued s s'))) = map Some currents)"
  proof (cases rule: k2614B_iv_sweep_cases)
    case (enable_fails ve)
    with mem show ?thesis by simp
  next
    case (loop_fails e pre v post rs xs tail s1)
    have i: "issued s s' = [?on] @ steps_ok ?L ?M (zip pre rs) @ tail"
      using loop_fails(8) by simp
    have f: "responses [?on] = []" by simp
    note b = bad_response_last [OF loop_fails(5,7,10) f mem [unfolded i] bad]
    from b(1) loop_fails have "res = Inl ValueError"
      and "k2614B_for ins str float vs [] s1 = (Some ValueError, xs, s')"
      and "length xs < length vs"
      by simp_all
    moreover from b(2) have "last (issued s s') = Query c (Inr r)"
      by (simp only: i)
    moreover from b(3) have "map float (responses (butlast (issued s s'))) = map Some xs"
      using k2614B_parse_map [OF loop_fails(7)] by (simp only: i)
    ultimately show ?thesis
      using loop_fails(1) by blast
  next
    case (disable_fails ve rs xs)
    with mem have "Query c (Inr r) \<in> set (steps_ok ?L ?M (zip vs rs))" by auto
    from steps_ok_parsed [OF disable_fails(2,4) this] bad show ?thesis by simp
  next
    case (returns rs xs)
    with mem have "Query c (Inr r) \<in> set (steps_ok ?L ?M (zip vs rs))" by auto
    from steps_ok_parsed [OF returns(2,4) this] bad show ?thesis by simp
  qed
next
  let ?L = "k2400_level str" and ?M = "'':MEAS:CURR?''" and ?P = "k2400_parse float"
  assume a: "k2400_iv_sweep ins2 str float vs s2 = (res2, s2') \<and>
      Query c2 (Inr r2) \<in> set (issued s2 s2') \<and>
      (\<exists>item \<in> set (str_split CHR '','' r2). float item = None)"
  then have run: "k2400_iv_sweep ins2 str float vs s2 = (res2, s2')"
    and mem: "Query c2 (Inr r2) \<in> set (issued s2 s2')"
    and bad: "?P r2 = Inl ValueError"
    by (simp_all add: k2400_parse_Inl float_items_ValueError)
  from run show "res2 = Inl ValueError \<and> last (issued s2 s2') = Query c2 (Inr r2) \<and>
      (\<exists>currents.
          k2400_for ins2 str float vs [] s2 = (Some ValueError, currents, s2') \<and>
          length currents < length vs \<and>
          map (k2400_parse float) (responses (butlast (issued s2 s2'))) = map Inr currents)"
  proof (cases rule: k2400_iv_sweep_cases)
    case (loop_fails e pre v post rs xs tail)
    have i: "issued s2 s2' = [] @ steps_ok ?L ?M (zip pre rs) @ tail"
      using loop_fails(7) by simp
    have f: "responses [] = []" by simp
    note b = bad_response_last [OF loop_fails(4,6,8) f mem [unfolded i] bad]
    from b(1) loop_fails have "res2 = Inl ValueError"
      and "k2400_for ins2 str float vs [] s2 = (Some ValueError, xs, s2')"
      and "length xs < length vs"
      by simp_all
    moreover from b(2) have "last (issued s2 s2') = Query c2 (Inr r2)"
      by (simp only: i)
    moreover from b(3) have
      "map (k2400_parse float) (responses (butlast (issued s2 s2'))) = map Inr xs"
      using loop_fails(6) by (simp only: i)
    ultimately show ?thesis by blast
  next
    case (disable_fails ve rs xs)
    with mem have "Query c2 (Inr r2) \<in> set (steps_ok ?L ?M (zip vs rs))" by auto
    from steps_ok_parsed [OF disable_fails(2,4) this] bad show ?thesis by simp
  next
    case (returns rs xs)
    with mem have "Query c2 (Inr r2) \<in> set (steps_ok ?L ?M (zip vs rs))" by auto
    from steps_ok_parsed [OF returns(2,4) this] bad show ?thesis by simp
  qed
qed

theorem sweep_parse_error_witness:
  "Query ''print(smua.measure.i())'' (Inr ''abc'') \<in>
     set (issued (script [Inr ''-3'', Inr ''abc'', Inr ''12''])
       (snd (k2614B_iv_sweep scripted str_text float_whole [''-1'', ''0'', ''2'']
          (script [Inr ''-3'', Inr ''abc'', Inr ''12''])))) \<and>
   float_whole ''abc'' = None \<and>
   fst (k2614B_iv_sweep scripted str_text float_whole [''-1'', ''0'', ''2'']
          (script [Inr ''-3'', Inr ''abc'', Inr ''12''])) = Inl ValueError \<and>
   map float_whole (responses (butlast
     (issued (script [Inr ''-3'', Inr ''abc'', Inr ''12''])
       (snd (k2614B_iv_sweep scripted str_text float_whole [''-1'', ''0'', ''2'']
          (script [Inr ''-3'', Inr ''abc'', Inr ''12''])))))) = map Some [- 3] \<and>
   (\<exists>s1 currents.
      write_visa scripted ''smua.source.output = smua.OUTPUT_ON''
        (script [Inr ''-3'', Inr ''abc'', Inr ''12'']) = (Inr (), s1) \<and>
      k2614B_for scripted str_text float_whole [''-1'', ''0'', ''2''] [] s1 =
        (Some ValueError, currents,
         snd (k2614B_iv_sweep scripted str_text float_whole [''-1'', ''0'', ''2'']
           (script [Inr ''-3'', Inr ''abc'', Inr ''12'']))) \<and>
      length currents < length [''-1'', ''0'', ''2'']) \<and>
   Query '':MEAS:CURR?'' (Inr ''0,abc'') \<in>
     set (issued (script [Inr ''-1,-3'', Inr ''0,abc'', Inr ''2,6''])
       (snd (k2400_iv_sweep scripted str_text float_whole [''-1'', ''0'', ''2'']
          (script [Inr ''-1,-3'', Inr ''0,abc'', Inr ''2,6''])))) \<and>
   (\<exists>item \<in> set (str_split CHR '','' ''0,abc''). float_whole item = None) \<and>
   fst (k2400_iv_sweep scripted str_text float_whole [''-1'', ''0'', ''2'']
          (script [Inr ''-1,-3'', Inr ''0,abc'', Inr ''2,6''])) = Inl ValueError \<and>
   (\<exists>currents.
      k2400_for scripted str_text float_whole [''-1'', ''0'', ''2''] []
        (script [Inr ''-1,-3'', Inr ''0,abc'', Inr ''2,6'']) =
        (Some ValueError, currents,
         snd (k2400_iv_sweep scripted str_text float_whole [''-1'', ''0'', ''2'']
           (script [Inr ''-1,-3'', Inr ''0,abc'', Inr ''2,6'']))) \<and>
      length currents < length [''-1'', ''0'', ''2''])"
proof -
  let ?s = "script [Inr ''-3'', Inr ''abc'', Inr ''12'']"
  let ?run = "k2614B_iv_sweep scripted str_text float_whole [''-1'', ''0'', ''2''] ?s"
  let ?s2 = "script [Inr ''-1,-3'', Inr ''0,abc'', Inr ''2,6'']"
  let ?run2 = "k2400_iv_sweep scripted str_text float_whole [''-1'', ''0'', ''2''] ?s2"
  have r: "?run = (fst ?run, snd ?run)" and r2: "?run2 = (fst ?run2, snd ?run2)"
    by simp_all
  have m: "Query ''print(smua.measure.i())'' (Inr ''abc'') \<in> set (issued ?s (snd ?run))"
    by (simp add: run_2614B_bad issued_script)
  have m2: "Query '':MEAS:CURR?'' (Inr ''0,abc'') \<in> set (issued ?s2 (snd ?run2))"
    by (simp add: run_2400_bad issued_script)
  have b: "float_whole ''abc'' = None"
    by (simp add: float_whole_def digit_val_def)
  have b2: "\<exists>item \<in> set (str_split CHR '','' ''0,abc''). float_whole item = None"
    by (simp add: float_whole_def digit_val_def)
  note c = sweep_parse_error [THEN conjunct1, THEN mp, OF conjI [OF r conjI [OF m b]]]
  note c2 = sweep_parse_error [THEN conjunct2, THEN mp, OF conjI [OF r2 conjI [OF m2 b2]]]
  have v: "map float_whole (responses (butlast (issued ?s (snd ?run)))) = map Some [- 3]"
    by (simp add: run_2614B_bad issued_script float_whole_def digit_val_def)
  from c c2 m m2 b b2 v show ?thesis
    by blast
qed

text \<open>
  C6. When a call of a sweep other than the disable write itself fails (a source-level
  write or a measurement query, or the enable write of the 2614B), the sweep raises the
  resource's error and has written no output-disable command. Conversely, when the
  disable command appears among the calls made, every set-point was written and
  measured before it, in order, and every response was read into a value: the disable
  write happens only after the loop has run over all set-points.
\<close>

theorem sweep_disable_only_after_loop:
  "(k2614B_iv_sweep ins str float vs s = (res, s') \<and> ev \<in> set (issued s s') \<and>
      \<not> succeeded ev \<and> call_of ev \<noteq> Wr ''smua.source.output = smua.OUTPUT_OFF'' \<longrightarrow>
      (\<exists>e. res = Inl (VisaError e)) \<and>
      Wr ''smua.source.output = smua.OUTPUT_OFF'' \<notin> set (map call_of (issued s s'))) \<and>
   (k2614B_iv_sweep ins str float vs s = (res, s') \<and>
      Wr ''smua.source.output = smua.OUTPUT_OFF'' \<in> set (map call_of (issued s s')) \<longrightarrow>
      map call_of (issued s s') =
        Wr ''smua.source.output = smua.OUTPUT_ON'' #
        concat (map (\<lambda>v. [Wr (''smua.source.levelv = '' @ str v),
                           Qu ''print(smua.measure.i())'']) vs) @
        [Wr ''smua.source.output = smua.OUTPUT_OFF''] \<and>
      (\<exists>currents. length currents = length vs \<and>
         map float (responses (issued s s')) = map Some currents)) \<and>
   (k2400_iv_sweep ins2 str float vs s2 = (res2, s2') \<and> ev2 \<in> set (issued s2 s2') \<and>
      \<not> succeeded ev2 \<and> call_of ev2 \<noteq> Wr ''OUTP OFF'' \<longrightarrow>
      (\<exists>e. res2 = Inl (VisaError e)) \<and>
      Wr ''OUTP OFF'' \<notin> set (map call_of (issued s2 s2'))) \<and>
   (k2400_iv_sweep ins2 str float vs s2 = (res2, s2') \<and>
      Wr ''OUTP OFF'' \<in> set (map call_of (issued s2 s2')) \<longrightarrow>
      map call_of (issued s2 s2') =
        concat (map (\<lambda>v. [Wr ('':SOUR:VOLT '' @ str v), Qu '':MEAS:CURR?'']) vs) @
        [Wr ''OUTP OFF''] \<and>
      (\<exists>currents. length currents = length vs \<and>
         map (k2400_parse float) (responses (issued s2 s2')) = map Inr currents))"
proof -
  let ?L = "k2614B_level str" and ?M = "''print(smua.measure.i())''"
    and ?P = "k2614B_parse float"
  let ?off = "''smua.source.output = smua.OUTPUT_OFF''"
  let ?L2 = "k2400_level str" and ?M2 = "'':MEAS:CURR?''" and ?P2 = "k2400_parse float"
  have a: "(\<exists>e. res = Inl (VisaError e)) \<and> Wr ?off \<notin> set (map call_of (issued s s'))"
    if run: "k2614B_iv_sweep ins str float vs s = (res, s')"
      and ev: "ev \<in> set (issued s s')" "\<not> succeeded ev" "call_of ev \<noteq> Wr ?off"
    using run
  proof (cases rule: k2614B_iv_sweep_cases)
    case (enable_fails ve)
    then show ?thesis by simp
  next
    case (loop_fails e pre v post rs xs tail s1)
    from ev(1,2) loop_fails(8) have "ev \<in> set tail"
      using succeeded_steps_ok [of ev ?L ?M "zip pre rs"] by auto
    with ev(2) loop_fails(10) have "\<exists>ve. e = VisaError ve"
      by (auto simp: step_fails_def)
    moreover have "Wr ?off \<notin> set (map call_of (issued s s'))"
      using no_call_in_steps [of ?L ?off ?M "zip pre rs"]
        no_call_in_tail [OF loop_fails(10), of ?off] k2614B_level_not_off [of str]
      by (simp add: loop_fails(8))
    ultimately show ?thesis using loop_fails(3) by blast
  next
    case (disable_fails ve rs xs)
    with ev show ?thesis
      using succeeded_steps_ok [of ev ?L ?M "zip vs rs"] by auto
  next
    case (returns rs xs)
    with ev show ?thesis
      using succeeded_steps_ok [of ev ?L ?M "zip vs rs"] by auto
  qed
  have b: "map call_of (issued s s') =
        Wr ''smua.source.output = smua.OUTPUT_ON'' #
        concat (map (\<lambda>v. [Wr (''smua.source.levelv = '' @ str v),
                           Qu ''print(smua.measure.i())'']) vs) @ [Wr ?off] \<and>
      (\<exists>currents. length currents = length vs \<and>
         map float (responses (issued s s')) = map Some currents)"
    if run: "k2614B_iv_sweep ins str float vs s = (res, s')"
      and off: "Wr ?off \<in> set (map call_of (issued s s'))"
    using run
  proof (cases rule: k2614B_iv_sweep_cases)
    case (enable_fails ve)
    with off show ?thesis by simp
  next
    case (loop_fails e pre v post rs xs tail s1)
    have "Wr ?off \<notin> set (map call_of (issued s s'))"
      using no_call_in_steps [of ?L ?off ?M "zip pre rs"]
        no_call_in_tail [OF loop_fails(10), of ?off] k2614B_level_not_off [of str]
      by (simp add: loop_fails(8))
    with off show ?thesis by simp
  next
    case (disable_fails ve rs xs)
    then show ?thesis
      using k2614B_parse_map [of float rs xs]
      by (auto simp: calls_steps_ok k2614B_level_def responses_append responses_steps_ok
          intro!: exI [of _ xs])
  next
    case (returns rs xs)
    then show ?thesis
      using k2614B_parse_map [of float rs xs]
      by (auto simp: calls_steps_ok k2614B_level_def responses_append responses_steps_ok
          intro!: exI [of _ xs])
  qed
  have c: "(\<exists>e. res2 = Inl (VisaError e)) \<and> Wr ''OUTP OFF'' \<notin> set (map call_of (issued s2 s2'))"
    if run: "k2400_iv_sweep ins2 str float vs s2 = (res2, s2')"
      and ev: "ev2 \<in> set (issued s2 s2')" "\<not> succeeded ev2" "call_of ev2 \<noteq> Wr ''OUTP OFF''"
    using run
  proof (cases rule: k2400_iv_sweep_cases)
    case (loop_fails e pre v post rs xs tail)
    from ev(1,2) loop_fails(7) have "ev2 \<in> set tail"
      using succeeded_steps_ok [of ev2 ?L2 ?M2 "zip pre rs"] by auto
    with ev(2) loop_fails(8) have "\<exists>ve. e = VisaError ve"
      by (auto simp: step_fails_def)
    moreover have "Wr ''OUTP OFF'' \<notin> set (map call_of (issued s2 s2'))"
      using no_call_in_steps [of ?L2 "''OUTP OFF''" ?M2 "zip pre rs"]
        no_call_in_tail [OF loop_fails(8), of "''OUTP OFF''"] k2400_level_not_off [of str]
      by (simp add: loop_fails(7))
    ultimately show ?thesis using loop_fails(2) by blast
  next
    case (disable_fails ve rs xs)
    with ev show ?thesis
      using succeeded_steps_ok [of ev2 ?L2 ?M2 "zip vs rs"] by auto
  next
    case (returns rs xs)
    with ev show ?thesis
      using succeeded_steps_ok [of ev2 ?L2 ?M2 "zip vs rs"] by auto
  qed
  have d: "map call_of (issued s2 s2') =
        concat (map (\<lambda>v. [Wr ('':SOUR:VOLT '' @ str v), Qu '':MEAS:CURR?'']) vs) @
        [Wr ''OUTP OFF''] \<and>
      (\<exists>currents. length currents = length vs \<and>
         map (k2400_parse float) (responses (issued s2 s2')) = map Inr currents)"
    if run: "k2400_iv_sweep ins2 str float vs s2 = (res2, s2')"
      and off: "Wr ''OUTP OFF'' \<in> set (map call_of (issued s2 s2'))"
    using run
  proof (cases rule: k2400_iv_sweep_cases)
    case (loop_fails e pre v post rs xs tail)
    have "Wr ''OUTP OFF'' \<notin> set (map call_of (issued s2 s2'))"
      using no_call_in_steps [of ?L2 "''OUTP OFF''" ?M2 "zip pre rs"]
        no_call_in_tail [OF loop_fails(8), of "''OUTP OFF''"] k2400_level_not_off [of str]
      by (simp add: loop_fails(7))
    with off show ?thesis by simp
  next
    case (disable_fails ve rs xs)
    then show ?thesis
      by (auto simp: calls_steps_ok k2400_level_def responses_append responses_steps_ok
          intro!: exI [of _ xs])
  next
    case (returns rs xs)
    then show ?thesis
      by (auto simp: calls_steps_ok k2400_level_def responses_append responses_steps_ok
          intro!: exI [of _ xs])
  qed
  from a b c d show ?thesis by blast
qed

theorem sweep_disable_only_after_loop_witness:
  "Query ''print(smua.measure.i())'' (Inl TimeoutError) \<in>
     set (issued (script [Inr ''-3'', Inl TimeoutError, Inr ''12''])
       (snd (k2614B_iv_sweep scripted str_text float_whole [''-1'', ''0'', ''2'']
          (script [Inr ''-3'', Inl TimeoutError, Inr ''12''])))) \<and>
   \<not> succeeded (Query ''print(smua.measure.i())'' (Inl TimeoutError)) \<and>
   fst (k2614B_iv_sweep scripted str_text float_whole [''-1'', ''0'', ''2'']
          (script [Inr ''-3'', Inl TimeoutError, Inr ''12''])) = Inl (VisaError TimeoutError) \<and>
   Wr ''smua.source.output = smua.OUTPUT_OFF'' \<notin>
     set (map call_of (issued (script [Inr ''-3'', Inl TimeoutError, Inr ''12''])
       (snd (k2614B_iv_sweep scripted str_text float_whole [''-1'', ''0'', ''2'']
          (script [Inr ''-3'', Inl TimeoutError, Inr ''12'']))))) \<and>
   Wr ''smua.source.output = smua.OUTPUT_OFF'' \<in>
     set (map call_of (issued (script [Inr ''-3'', Inr ''0''])
       (snd (k2614B_iv_sweep scripted str_text float_whole [''-1'', ''0'']
          (script [Inr ''-3'', Inr ''0'']))))) \<and>
   map call_of (issued (script [Inr ''-3'', Inr ''0''])
       (snd (k2614B_iv_sweep scripted str_text float_whole [''-1'', ''0'']
          (script [Inr ''-3'', Inr ''0''])))) =
     [Wr ''smua.source.output = smua.OUTPUT_ON'',
      Wr ''smua.source.levelv = -1'', Qu ''print(smua.measure.i())'',
      Wr ''smua.source.levelv = 0'', Qu ''print(smua.measure.i())'',
      Wr ''smua.source.output = smua.OUTPUT_OFF''] \<and>
   Query '':MEAS:CURR?'' (Inl TimeoutError) \<in>
     set (issued (script [Inr ''-1,-3'', Inl TimeoutError, Inr ''2,6''])
       (snd (k2400_iv_sweep scripted str_text float_whole [''-1'', ''0'', ''2'']
          (script [Inr ''-1,-3'', Inl TimeoutError, Inr ''2,6''])))) \<and>
   \<not> succeeded (Query '':MEAS:CURR?'' (Inl TimeoutError)) \<and>
   fst (k2400_iv_sweep scripted str_text float_whole [''-1'', ''0'', ''2'']
          (script [Inr ''-1,-3'', Inl TimeoutError, Inr ''2,6''])) = Inl (VisaError TimeoutError) \<and>
   Wr ''OUTP OFF'' \<notin>
     set (map call_of (issued (script [Inr ''-1,-3'', Inl TimeoutError, Inr ''2,6''])
       (snd (k2400_iv_sweep scripted str_text float_whole [''-1'', ''0'', ''2'']
          (script [Inr ''-1,-3'', Inl TimeoutError, Inr ''2,6'']))))) \<and>
   Wr ''OUTP OFF'' \<in>
     set (map call_of (issued (script [Inr ''-1,-3'', Inr ''0,0,7''])
       (snd (k2400_iv_sweep scripted str_text float_whole [''-1'', ''0'']
          (script [Inr ''-1,-3'', Inr ''0,0,7'']))))) \<and>
   map call_of (issued (script [Inr ''-1,-3'', Inr ''0,0,7''])
       (snd (k2400_iv_sweep scripted str_text float_whole [''-1'', ''0'']
          (script [Inr ''-1,-3'', Inr ''0,0,7''])))) =
     [Wr '':SOUR:VOLT -1'', Qu '':MEAS:CURR?'',
      Wr '':SOUR:VOLT 0'', Qu '':MEAS:CURR?'', Wr ''OUTP OFF'']"
proof -
  let ?sf = "script [Inr ''-3'', Inl TimeoutError, Inr ''12'']"
  let ?runf = "k2614B_iv_sweep scripted str_text float_whole [''-1'', ''0'', ''2''] ?sf"
  let ?s = "script [Inr ''-3'', Inr ''0'']"
  let ?run = "k2614B_iv_sweep scripted str_text float_whole [''-1'', ''0''] ?s"
  let ?sf2 = "script [Inr ''-1,-3'', Inl TimeoutError, Inr ''2,6'']"
  let ?runf2 = "k2400_iv_sweep scripted str_text float_whole [''-1'', ''0'', ''2''] ?sf2"
  let ?s2 = "script [Inr ''-1,-3'', Inr ''0,0,7'']"
  let ?run2 = "k2400_iv_sweep scripted str_text float_whole [''-1'', ''0''] ?s2"
  let ?q = "Query ''print(smua.measure.i())'' (Inl TimeoutError)"
  let ?q2 = "Query '':MEAS:CURR?'' (Inl TimeoutError)"
  have rf: "?runf = (fst ?runf, snd ?runf)" and r: "?run = (fst ?run, snd ?run)"
    and rf2: "?runf2 = (fst ?runf2, snd ?runf2)" and r2: "?run2 = (fst ?run2, snd ?run2)"
    by simp_all
  have m: "?q \<in> set (issued ?sf (snd ?runf))"
    by (simp add: run_2614B_timeout issued_script)
  have m2: "?q2 \<in> set (issued ?sf2 (snd ?runf2))"
    by (simp add: run_2400_timeout issued_script)
  have n: "\<not> succeeded ?q" "call_of ?q \<noteq> Wr ''smua.source.output = smua.OUTPUT_OFF''"
    and n2: "\<not> succeeded ?q2" "call_of ?q2 \<noteq> Wr ''OUTP OFF''"
    by simp_all
  have o: "Wr ''smua.source.output = smua.OUTPUT_OFF'' \<in> set (map call_of (issued ?s (snd ?run)))"
    by (simp add: run_2614B_ok issued_script)
  have o2: "Wr ''OUTP OFF'' \<in> set (map call_of (issued ?s2 (snd ?run2)))"
    by (simp add: run_2400_ok issued_script)
  have f: "fst ?runf = Inl (VisaError TimeoutError)"
    by (simp add: run_2614B_timeout)
  have f2: "fst ?runf2 = Inl (VisaError TimeoutError)"
    by (simp add: run_2400_timeout)
  note a = sweep_disable_only_after_loop
    [THEN conjunct1, THEN mp, OF conjI [OF rf conjI [OF m conjI [OF n]]], THEN conjunct2]
  note b = sweep_disable_only_after_loop
    [THEN conjunct2, THEN conjunct1, THEN mp, OF conjI [OF r o], THEN conjunct1]
  note c = sweep_disable_only_after_loop
    [THEN conjunct2, THEN conjunct2, THEN conjunct1, THEN mp,
     OF conjI [OF rf2 conjI [OF m2 conjI [OF n2]]], THEN conjunct2]
  note d = sweep_disable_only_after_loop
    [THEN conjunct2, THEN conjunct2, THEN conjunct2, THEN mp, OF conjI [OF r2 o2],
     THEN conjunct1]
  from a b c d m m2 n n2 o o2 f f2 show ?thesis
    by (simp add: str_text_def)
qed

text \<open>
  C7. Against the resistor stub, after setup with mode \<^verbatim>\<open>VOLT\<close>, voltage range 2,
  current range 0.1 and delay 0, the sweep over \<open>[-1.0, -0.5, 0.0, 0.5, 1.0]\<close> returns
  exactly \<open>[-0.001, -0.0005, 0.0, 0.0005, 0.001]\<close>, for \<open>k2400_iv_sweep\<close> and for
  \<open>k2614B_iv_sweep\<close> (whose setup takes the mode as \<open>sfunc\<close>, with any \<open>mfunc\<close>). It
  holds from any session, for every \<^verbatim>\<open>str\<close> and \<^verbatim>\<open>float\<close> such that \<^verbatim>\<open>float\<close> reads
  back what \<^verbatim>\<open>str\<close> prints of the five voltages and the five currents and, for the
  2400, \<^verbatim>\<open>str\<close> prints no comma in them. Numbers are rationals.
\<close>

theorem resistor_sweep:
  "((\<forall>x \<in> set [- 1, - 1 / 2, 0, 1 / 2, 1].
        float (str x) = Some x \<and> float (str (x / 1000)) = Some (x / 1000) \<and>
        CHR '','' \<notin> set (str x) \<and> CHR '','' \<notin> set (str (x / 1000))) \<longrightarrow>
     fst (k2400_setup (k2400_stub str float) str ''VOLT'' 2 (1 / 10) 0 s) = Inr () \<and>
     fst (k2400_iv_sweep (k2400_stub str float) str float [- 1, - 1 / 2, 0, 1 / 2, 1]
            (snd (k2400_setup (k2400_stub str float) str ''VOLT'' 2 (1 / 10) 0 s))) =
       Inr [- 1 / 1000, - 1 / 2000, 0, 1 / 2000, 1 / 1000]) \<and>
   ((\<forall>x \<in> set [- 1, - 1 / 2, 0, 1 / 2, 1].
        float (str x) = Some x \<and> float (str (x / 1000)) = Some (x / 1000)) \<longrightarrow>
     fst (k2614B_setup (k2614B_stub str float) str ''VOLT'' mfunc 2 (1 / 10) 0 s2) = Inr () \<and>
     fst (k2614B_iv_sweep (k2614B_stub str float) str float [- 1, - 1 / 2, 0, 1 / 2, 1]
            (snd (k2614B_setup (k2614B_stub str float) str ''VOLT'' mfunc 2 (1 / 10) 0 s2))) =
       Inr [- 1 / 1000, - 1 / 2000, 0, 1 / 2000, 1 / 1000])"
proof (rule conjI; rule impI)
  assume a: "\<forall>x \<in> set [- 1, - 1 / 2, 0, 1 / 2, 1].
        float (str x) = Some x \<and> float (str (x / 1000)) = Some (x / 1000) \<and>
        CHR '','' \<notin> set (str x) \<and> CHR '','' \<notin> set (str (x / 1000))"
  have m: "map (\<lambda>v. v / 1000) [- 1, - 1 / 2, 0, 1 / 2, 1 :: rat] =
      [- 1 / 1000, - 1 / 2000, 0, 1 / 2000, 1 / 1000]"
    by simp
  from k2400_sweep_resistor [OF a] k2400_setup_resistor [of str float]
  show "fst (k2400_setup (k2400_stub str float) str ''VOLT'' 2 (1 / 10) 0 s) = Inr () \<and>
     fst (k2400_iv_sweep (k2400_stub str float) str float [- 1, - 1 / 2, 0, 1 / 2, 1]
            (snd (k2400_setup (k2400_stub str float) str ''VOLT'' 2 (1 / 10) 0 s))) =
       Inr [- 1 / 1000, - 1 / 2000, 0, 1 / 2000, 1 / 1000]"
    by (simp only: m)
next
  assume a: "\<forall>x \<in> set [- 1, - 1 / 2, 0, 1 / 2, 1].
        float (str x) = Some x \<and> float (str (x / 1000)) = Some (x / 1000)"
  have m: "map (\<lambda>v. v / 1000) [- 1, - 1 / 2, 0, 1 / 2, 1 :: rat] =
      [- 1 / 1000, - 1 / 2000, 0, 1 / 2000, 1 / 1000]"
    by simp
  from k2614B_sweep_resistor [OF a] k2614B_setup_resistor [of str float]
  show "fst (k2614B_setup (k2614B_stub str float) str ''VOLT'' mfunc 2 (1 / 10) 0 s2) = Inr () \<and>
     fst (k2614B_iv_sweep (k2614B_stub str float) str float [- 1, - 1 / 2, 0, 1 / 2, 1]
            (snd (k2614B_setup (k2614B_stub str float) str ''VOLT'' mfunc 2 (1 / 10) 0 s2))) =
       Inr [- 1 / 1000, - 1 / 2000, 0, 1 / 2000, 1 / 1000]"
    by (simp only: m)
qed

theorem resistor_sweep_witness:
  "list_all (\<lambda>x. float_dec (str_dec x) = Some x \<and> float_dec (str_dec (x / 1000)) = Some (x / 1000) \<and>
        CHR '','' \<notin> set (str_dec x) \<and> CHR '','' \<notin> set (str_dec (x / 1000)))
     [- 1, - 1 / 2, 0, 1 / 2, 1] \<and>
   fst (k2400_iv_sweep (k2400_stub str_dec float_dec) str_dec float_dec [- 1, - 1 / 2, 0, 1 / 2, 1]
          (snd (k2400_setup (k2400_stub str_dec float_dec) str_dec ''VOLT'' 2 (1 / 10) 0 bench))) =
     Inr [- 1 / 1000, - 1 / 2000, 0, 1 / 2000, 1 / 1000] \<and>
   fst (k2614B_iv_sweep (k2614B_stub str_dec float_dec) str_dec float_dec
          [- 1, - 1 / 2, 0, 1 / 2, 1]
          (snd (k2614B_setup (k2614B_stub str_dec float_dec) str_dec ''VOLT'' ''AMPS'' 2 (1 / 10) 0
             bench))) =
     Inr [- 1 / 1000, - 1 / 2000, 0, 1 / 2000, 1 / 1000]"
proof -
  have h: "\<forall>x \<in> set [- 1, - 1 / 2, 0, 1 / 2, 1 :: rat].
        float_dec (str_dec x) = Some x \<and> float_dec (str_dec (x / 1000)) = Some (x / 1000)"
    using dec_round_trip by blast
  note a = resistor_sweep [THEN conjunct1, THEN mp, OF dec_round_trip, THEN conjunct2, of bench]
  note b = resistor_sweep [THEN conjunct2, THEN mp, OF h, THEN conjunct2, of "''AMPS''" bench]
  from a b dec_round_trip show ?thesis
    by (simp only: list_all_iff)
qed

text \<open>
  C8. On the empty input a sweep makes no call other than writes of the output-enable
  and output-disable commands (\<open>k2614B_iv_sweep\<close> both, \<open>k2400_iv_sweep\<close> the disable
  command only): no source-level write and no measurement query. It returns the empty
  list or raises the error of a failed write, and when no write fails it returns the
  empty list.
\<close>

theorem empty_sweep:
  "(k2614B_iv_sweep ins str float [] s = (res, s') \<longrightarrow>
      set (map call_of (issued s s')) \<subseteq>
        {Wr ''smua.source.output = smua.OUTPUT_ON'', Wr ''smua.source.output = smua.OUTPUT_OFF''} \<and>
      (res = Inr [] \<or> (\<exists>e. res = Inl (VisaError e))) \<and>
      ((\<forall>ev \<in> set (issued s s'). succeeded ev) \<longrightarrow>
         res = Inr [] \<and>
         map call_of (issued s s') =
           [Wr ''smua.source.output = smua.OUTPUT_ON'',
            Wr ''smua.source.output = smua.OUTPUT_OFF''])) \<and>
   (k2400_iv_sweep ins2 str float [] s2 = (res2, s2') \<longrightarrow>
      set (map call_of (issued s2 s2')) \<subseteq> {Wr ''OUTP OFF''} \<and>
      (res2 = Inr [] \<or> (\<exists>e. res2 = Inl (VisaError e))) \<and>
      ((\<forall>ev \<in> set (issued s2 s2'). succeeded ev) \<longrightarrow>
         res2 = Inr [] \<and> map call_of (issued s2 s2') = [Wr ''OUTP OFF'']))"
proof (rule conjI; rule impI)
  assume "k2614B_iv_sweep ins str float [] s = (res, s')"
  then show "set (map call_of (issued s s')) \<subseteq>
        {Wr ''smua.source.output = smua.OUTPUT_ON'', Wr ''smua.source.output = smua.OUTPUT_OFF''} \<and>
      (res = Inr [] \<or> (\<exists>e. res = Inl (VisaError e))) \<and>
      ((\<forall>ev \<in> set (issued s s'). succeeded ev) \<longrightarrow>
         res = Inr [] \<and>
         map call_of (issued s s') =
           [Wr ''smua.source.output = smua.OUTPUT_ON'',
            Wr ''smua.source.output = smua.OUTPUT_OFF''])"
    by (cases rule: k2614B_iv_sweep_cases) (simp_all add: steps_ok_def)
next
  assume "k2400_iv_sweep ins2 str float [] s2 = (res2, s2')"
  then show "set (map call_of (issued s2 s2')) \<subseteq> {Wr ''OUTP OFF''} \<and>
      (res2 = Inr [] \<or> (\<exists>e. res2 = Inl (VisaError e))) \<and>
      ((\<forall>ev \<in> set (issued s2 s2'). succeeded ev) \<longrightarrow>
         res2 = Inr [] \<and> map call_of (issued s2 s2') = [Wr ''OUTP OFF''])"
    by (cases rule: k2400_iv_sweep_cases) (simp_all add: steps_ok_def)
qed

theorem empty_sweep_witness:
  "list_all succeeded (issued (script [])
      (snd (k2614B_iv_sweep scripted str_text float_whole [] (script [])))) \<and>
   fst (k2614B_iv_sweep scripted str_text float_whole [] (script [])) = Inr [] \<and>
   map call_of (issued (script [])
      (snd (k2614B_iv_sweep scripted str_text float_whole [] (script [])))) =
     [Wr ''smua.source.output = smua.OUTPUT_ON'', Wr ''smua.source.output = smua.OUTPUT_OFF''] \<and>
   list_all succeeded (issued (script [])
      (snd (k2400_iv_sweep scripted str_text float_whole [] (script [])))) \<and>
   fst (k2400_iv_sweep scripted str_text float_whole [] (script [])) = Inr [] \<and>
   map call_of (issued (script [])
      (snd (k2400_iv_sweep scripted str_text float_whole [] (script [])))) = [Wr ''OUTP OFF'']"
proof -
  let ?run = "k2614B_iv_sweep scripted str_text float_whole [] (script [])"
  let ?run2 = "k2400_iv_sweep scripted str_text float_whole [] (script [])"
  have r: "?run = (fst ?run, snd ?run)" and r2: "?run2 = (fst ?run2, snd ?run2)"
    by simp_all
  have h: "\<forall>ev \<in> set (issued (script []) (snd ?run)). succeeded ev"
    by (simp add: run_2614B_empty issued_script)
  have h2: "\<forall>ev \<in> set (issued (script []) (snd ?run2)). succeeded ev"
    by (simp add: run_2400_empty issued_script)
  note c = empty_sweep
    [THEN conjunct1, THEN mp, OF r, THEN conjunct2, THEN conjunct2, THEN mp, OF h]
  note c2 = empty_sweep
    [THEN conjunct2, THEN mp, OF r2, THEN conjunct2, THEN conjunct2, THEN mp, OF h2]
  from c c2 h h2 show ?thesis
    by (simp add: list_all_iff)
qed

text \<open>
  C9. \<open>k2614B_setup\<close> never uses \<open>mfunc\<close>: with all other parameters equal, two values
  of \<open>mfunc\<close> give the same result, the same instrument state and the same trace.
  Whenever the run reaches its third call, that call writes the fixed text
  \<^verbatim>\<open>display.smua.measure.func = display.MEASURE_DCAMPS\<close>.
\<close>

theorem k2614B_setup_ignores_mfunc:
  "k2614B_setup ins str sfunc mfunc v_range i_range delay s =
     k2614B_setup ins str sfunc mfunc' v_range i_range delay s \<and>
   (k2614B_setup ins str sfunc mfunc v_range i_range delay s = (res, s') \<and>
      2 < length (issued s s') \<longrightarrow>
      call_of (issued s s' ! 2) = Wr ''display.smua.measure.func = display.MEASURE_DCAMPS'')"
proof (rule conjI; (rule impI)?)
  show "k2614B_setup ins str sfunc mfunc v_range i_range delay s =
     k2614B_setup ins str sfunc mfunc' v_range i_range delay s"
    by (simp add: k2614B_setup_def)
next
  assume a: "k2614B_setup ins str sfunc mfunc v_range i_range delay s = (res, s') \<and>
      2 < length (issued s s')"
  from a have l: "2 < length (issued s s')" by (rule conjunct2)
  from a have "k2614B_setup ins str sfunc mfunc v_range i_range delay s = (res, s')"
    by (rule conjunct1)
  then have w: "write_all ins
       [''smua.source.output = smua.OUTPUT_OFF'', ''smua.source.func = smua.OUTPUT_'' @ sfunc,
        ''display.smua.measure.func = display.MEASURE_DCAMPS'',
        ''smua.measure.rangev = '' @ str v_range, ''smua.measure.rangei = '' @ str i_range,
        ''smua.measure.delay = '' @ str delay] s = (res, s')"
    by (simp only: k2614B_setup_eq)
  from write_all_nth [OF w l]
  show "call_of (issued s s' ! 2) = Wr ''display.smua.measure.func = display.MEASURE_DCAMPS''"
    by simp
qed

theorem k2614B_setup_ignores_mfunc_witness:
  "2 < length (issued (script [])
      (snd (k2614B_setup scripted str_text ''DCAMPS'' ''DCVOLTS'' ''3'' ''0.2'' ''1'' (script [])))) \<and>
   call_of (issued (script [])
      (snd (k2614B_setup scripted str_text ''DCAMPS'' ''DCVOLTS'' ''3'' ''0.2'' ''1'' (script []))) ! 2) =
     Wr ''display.smua.measure.func = display.MEASURE_DCAMPS''"
proof -
  let ?run = "k2614B_setup scripted str_text ''DCAMPS'' ''DCVOLTS'' ''3'' ''0.2'' ''1'' (script [])"
  have r: "?run = (fst ?run, snd ?run)" by simp
  have l: "2 < length (issued (script []) (snd ?run))"
    by (simp add: run_2614B_setup issued_script)
  from k2614B_setup_ignores_mfunc [THEN conjunct2, THEN mp, OF conjI [OF r l]] l
  show ?thesis by blast
qed

text \<open>
  C10 as stated fails on a response of one field that is not a number: the sweep fails
  with \<^verbatim>\<open>ValueError\<close>, raised by \<^verbatim>\<open>float\<close> before \<^verbatim>\<open>data[1]\<close> is evaluated, not
  with an index error.
\<close>

theorem k2400_short_response_counterexample:
  "length (str_split CHR '','' ''abc'') = 1 \<and>
   k2400_iv_sweep scripted str_text float_whole [''1''] (script [Inr ''abc'']) =
    (Inl ValueError,
     \<lparr>device = [],
      trace = [Write '':SOUR:VOLT 1'' None, Query '':MEAS:CURR?'' (Inr ''abc'')]\<rparr>)"
  by (simp add: run_2400_short_text)

text \<open>
  C10, as amended. \<open>k2400_iv_sweep\<close> reads each response by splitting it at the commas,
  converting every field and appending the field at index 1: on a sweep that returns,
  each element of the result is field 1 of the converted fields of its response, which
  are at least two. A response with fewer than two fields (no comma) ends the sweep at
  that query with no value returned: with \<^verbatim>\<open>IndexError\<close> when \<^verbatim>\<open>float\<close> accepts the
  single field, with \<^verbatim>\<open>ValueError\<close> when it does not.
\<close>

theorem k2400_short_response:
  "(k2400_iv_sweep ins str float vs s = (Inr cs, s'') \<longrightarrow>
      list_all2
        (\<lambda>r x. \<exists>items. float_items float (str_split CHR '','' r) = Inr items \<and>
                  1 < length items \<and> x = items ! 1)
        (responses (issued s s'')) cs) \<and>
   (k2400_iv_sweep ins str float vs s = (res, s') \<and>
      Query c (Inr r) \<in> set (issued s s') \<and> length (str_split CHR '','' r) < 2 \<longrightarrow>
      last (issued s s') = Query c (Inr r) \<and>
      res = Inl (if float r = None then ValueError else IndexError))"
proof (rule conjI; rule impI)
  assume "k2400_iv_sweep ins str float vs s = (Inr cs, s'')"
  from k2400_returns [OF this] obtain rs where
    d: "length rs = length vs" "map (k2400_parse float) rs = map Inr cs"
      "issued s s'' = steps_ok (k2400_level str) '':MEAS:CURR?'' (zip vs rs) @
         [Write ''OUTP OFF'' None]"
    by blast
  from d(1,3) have "responses (issued s s'') = rs"
    by (simp add: responses_append responses_steps_ok)
  with parsed_list_all2 [OF d(2)] show "list_all2
        (\<lambda>r x. \<exists>items. float_items float (str_split CHR '','' r) = Inr items \<and>
                  1 < length items \<and> x = items ! 1)
        (responses (issued s s'')) cs"
    by (simp add: k2400_parse_Inr)
next
  let ?L = "k2400_level str" and ?M = "'':MEAS:CURR?''" and ?P = "k2400_parse float"
  let ?e = "if float r = None then ValueError else IndexError"
  assume a: "k2400_iv_sweep ins str float vs s = (res, s') \<and>
      Query c (Inr r) \<in> set (issued s s') \<and> length (str_split CHR '','' r) < 2"
  then have run: "k2400_iv_sweep ins str float vs s = (res, s')"
    and mem: "Query c (Inr r) \<in> set (issued s s')"
    and bad: "?P r = Inl ?e"
    using k2400_parse_single [of r float] by simp_all
  from run show "last (issued s s') = Query c (Inr r) \<and> res = Inl ?e"
  proof (cases rule: k2400_iv_sweep_cases)
    case (loop_fails e pre v post rs xs tail)
    have i: "issued s s' = [] @ steps_ok ?L ?M (zip pre rs) @ tail"
      using loop_fails(7) by simp
    have f: "responses [] = []" by simp
    note b = bad_response_last [OF loop_fails(4,6,8) f mem [unfolded i] bad]
    from b(1) loop_fails(2) have "res = Inl ?e" by simp
    moreover from b(2) have "last (issued s s') = Query c (Inr r)"
      by (simp only: i)
    ultimately show ?thesis by blast
  next
    case (disable_fails ve rs xs)
    with mem have "Query c (Inr r) \<in> set (steps_ok ?L ?M (zip vs rs))" by auto
    from steps_ok_parsed [OF disable_fails(2,4) this] bad show ?thesis by simp
  next
    case (returns rs xs)
    with mem have "Query c (Inr r) \<in> set (steps_ok ?L ?M (zip vs rs))" by auto
    from steps_ok_parsed [OF returns(2,4) this] bad show ?thesis by simp
  qed
qed

theorem k2400_short_response_witness:
  "list_all2
     (\<lambda>r x. \<exists>items. float_items float_whole (str_split CHR '','' r) = Inr items \<and>
               1 < length items \<and> x = items ! 1)
     (responses (issued (script [Inr ''-1,-3'', Inr ''0,0,7''])
        (snd (k2400_iv_sweep scripted str_text float_whole [''-1'', ''0'']
           (script [Inr ''-1,-3'', Inr ''0,0,7''])))))
     [- 3, 0] \<and>
   Query '':MEAS:CURR?'' (Inr ''5'') \<in>
     set (issued (script [Inr ''5''])
       (snd (k2400_iv_sweep scripted str_text float_whole [''1''] (script [Inr ''5''])))) \<and>
   length (str_split CHR '','' ''5'') < 2 \<and> float_whole ''5'' = Some 5 \<and>
   fst (k2400_iv_sweep scripted str_text float_whole [''1''] (script [Inr ''5''])) =
     Inl IndexError \<and>
   Query '':MEAS:CURR?'' (Inr ''abc'') \<in>
     set (issued (script [Inr ''abc''])
       (snd (k2400_iv_sweep scripted str_text float_whole [''1''] (script [Inr ''abc''])))) \<and>
   length (str_split CHR '','' ''abc'') < 2 \<and> float_whole ''abc'' = None \<and>
   fst (k2400_iv_sweep scripted str_text float_whole [''1''] (script [Inr ''abc''])) =
     Inl ValueError"
proof -
  let ?s = "script [Inr ''-1,-3'', Inr ''0,0,7'']"
  let ?run = "k2400_iv_sweep scripted str_text float_whole [''-1'', ''0''] ?s"
  let ?run5 = "k2400_iv_sweep scripted str_text float_whole [''1''] (script [Inr ''5''])"
  let ?runa = "k2400_iv_sweep scripted str_text float_whole [''1''] (script [Inr ''abc''])"
  have r: "?run = (Inr [- 3, 0], snd ?run)"
    by (simp add: run_2400_ok)
  have r5: "?run5 = (fst ?run5, snd ?run5)" and ra: "?runa = (fst ?runa, snd ?runa)"
    by simp_all
  have m5: "Query '':MEAS:CURR?'' (Inr ''5'') \<in> set (issued (script [Inr ''5'']) (snd ?run5))"
    by (simp add: run_2400_short_number issued_script)
  have ma: "Query '':MEAS:CURR?'' (Inr ''abc'') \<in> set (issued (script [Inr ''abc'']) (snd ?runa))"
    by (simp add: run_2400_short_text issued_script)
  have l5: "length (str_split CHR '','' ''5'') < 2" and la: "length (str_split CHR '','' ''abc'') < 2"
    by simp_all
  have f5: "float_whole ''5'' = Some 5" and fa: "float_whole ''abc'' = None"
    by (simp_all add: float_whole_def digit_val_def)
  note a = k2400_short_response [THEN conjunct1, THEN mp, OF r]
  note b = k2400_short_response
    [THEN conjunct2, THEN mp, OF conjI [OF r5 conjI [OF m5 l5]], THEN conjunct2]
  note c = k2400_short_response
    [THEN conjunct2, THEN mp, OF conjI [OF ra conjI [OF ma la]], THEN conjunct2]
  from b f5 have b': "fst ?run5 = Inl IndexError" by simp
  from c fa have c': "fst ?runa = Inl ValueError" by simp
  from a b' c' m5 ma l5 la f5 fa show ?thesis
    by blast
qed

end
